theory Spec2Isabelle
  imports Main "HOL-Library.Multiset" "HOL-Library.Word"
begin

section \<open>Group chat resolvers: documents, store and results\<close>

text \<open>
  The group chat resolver module is a GraphQL resolver map (\<^verbatim>\<open>Query\<close>, \<^verbatim>\<open>Mutation\<close>) over two
  document collections, \<^verbatim>\<open>Group\<close> and \<^verbatim>\<open>GroupMessage\<close>. The embedding keeps the
  resolvers' names, their order of checks and their error messages.

  \<^item> User identifiers are strings (the resolvers compare them with \<^verbatim>\<open>includes\<close>,
    \<^verbatim>\<open>===\<close> and \<^verbatim>\<open>toString()\<close>); identifiers of groups and messages are assigned by
    the store and are natural numbers here.
  \<^item> A JavaScript string whose characters the code inspects (a group name, a
    description, the content of a message) is the list of its UTF-16 code units.
    Identifiers, URLs, search patterns and error messages are only compared, joined or
    passed on, and are plain strings.
  \<^item> A collection is the list of its documents in insertion order.
  \<^item> A resolver takes the request context (the authenticated user, if any, and the
    value of \<^verbatim>\<open>new Date()\<close> during the request) and the store, and returns its outcome
    with the store after the request. A thrown \<^verbatim>\<open>Error\<close> is the outcome \<open>Thrown\<close>.
  \<^item> Requests run one at a time; the store itself never fails. The socket notifier
    (\<^verbatim>\<open>io\<close>) does not change a collection and is left out.
  \<^item> \<^verbatim>\<open>populate\<close> hydrates the references of a returned document from the \<^verbatim>\<open>User\<close>
    collection, which is not modelled. \<^verbatim>\<open>createGroup\<close> returns the hydrated document
    through a parameter; the documents the other resolvers return are shown as they are
    stored, before hydration.
\<close>

type_synonym object_id = string
type_synonym group_id = nat
type_synonym message_id = nat
type_synonym timestamp = nat
type_synonym js_string = "16 word list"

text \<open>The code units of a string of ASCII characters.\<close>

definition utf16 :: "string \<Rightarrow> js_string" where
  "utf16 s = map of_char s"

record user =
  user_id :: object_id

record "context" =
  user :: "user option"
  clock :: timestamp

record last_message =
  last_content :: js_string
  last_sender :: object_id
  last_timestamp :: timestamp

text \<open>
  Modelled from the spec: the schema of \<^verbatim>\<open>Group\<close> (\<^verbatim>\<open>Models/Group\<close> is not among the
  sources). The fields are those the resolvers read and write; members, admins and the
  creator are stored as object ids (the resolvers populate them and call
  \<^verbatim>\<open>toString()\<close> on them); a new group has no last message yet, and its update
  timestamp is the time of its creation.
\<close>

record group_doc =
  gid :: group_id
  name :: js_string
  description :: js_string
  groupImage :: string
  members :: "object_id list"
  admins :: "object_id list"
  createdBy :: object_id
  isPrivate :: bool
  maxMembers :: int
  lastMessage :: "last_message option"
  updatedAt :: timestamp

text \<open>
  The paths of the schema of \<^verbatim>\<open>GroupMessage\<close> that the resolvers read or set:
  \<^verbatim>\<open>
  group: { type: ObjectId, ref: 'Group', required: true },
  sender: { type: ObjectId, ref: 'User', required: true },
  content: { type: String, trim: true },
  messageType: { type: String, enum: ['text', 'image', 'video', 'audio', 'file', 'system'],
                 default: 'text' },
  media: { url: String, type: String, filename: String, size: Number },
  replyTo: { type: ObjectId, ref: 'GroupMessage' },
  isDeleted: { type: Boolean, default: false },
  readBy: [{ user: { type: ObjectId, ref: 'User' }, readAt: { type: Date, default: Date.now } }],
  createdAt: { type: Date, default: Date.now }
  \<close>
  The declaration of \<^verbatim>\<open>media\<close> has a \<^verbatim>\<open>type\<close> key, and the object-document mapper reads
  such a declaration as the type of the path: \<^verbatim>\<open>media\<close> is a string path (with the
  options \<^verbatim>\<open>url\<close>, \<^verbatim>\<open>filename\<close> and \<^verbatim>\<open>size\<close>, which it ignores), not a nested
  document. The content is trimmed when it is set. The schema also declares
  \<^verbatim>\<open>isEdited\<close>, \<^verbatim>\<open>editedAt\<close>, \<^verbatim>\<open>deletedAt\<close> and \<^verbatim>\<open>updatedAt\<close>; no resolver reads
  or sets them, and the record leaves them out.
\<close>

datatype message_type = Text | Image | Video | Audio | File | System

fun type_name :: "message_type \<Rightarrow> string" where
  "type_name Text = ''text''"
| "type_name Image = ''image''"
| "type_name Video = ''video''"
| "type_name Audio = ''audio''"
| "type_name File = ''file''"
| "type_name System = ''system''"

record read_receipt =
  read_user :: object_id
  readAt :: timestamp

record message_doc =
  mid :: message_id
  group_ref :: group_id
  sender :: object_id
  content :: "js_string option"
  messageType :: message_type
  media :: "string option"
  replyTo :: "message_id option"
  isDeleted :: bool
  readBy :: "read_receipt list"
  createdAt :: timestamp

text \<open>
  Modelled from the spec: the \<^verbatim>\<open>media\<close> argument of \<^verbatim>\<open>sendGroupMessage\<close> (the GraphQL
  type definitions are not among the sources) is the media descriptor of the data model:
  URL, type, filename and size.
\<close>

record media_descriptor =
  media_url :: string
  media_type :: string
  media_filename :: string
  media_size :: nat

text \<open>
  The object-document mapper (\<^verbatim>\<open>mongoose\<close>) is not among the sources. What the resolvers
  need of it is a parameter:
  \<^item> \<open>isValid\<close> is \<^verbatim>\<open>mongoose.Types.ObjectId.isValid\<close>;
  \<^item> \<open>castObjectId\<close> is the cast of a string to the object id it spells, done when a
    document with an object id path is created; \<open>None\<close> when the string spells none;
  \<^item> \<open>validationMessage\<close> is the message of the validation error with which
    \<^verbatim>\<open>create\<close> refuses a document whose values do not cast;
  \<^item> \<open>populate\<close> hydrates a group for the response.
\<close>

datatype invalid_value = InvalidObjectIds "string list" | InvalidMedia media_descriptor

record 'p mongoose =
  isValid :: "string \<Rightarrow> bool"
  castObjectId :: "string \<Rightarrow> object_id option"
  validationMessage :: "invalid_value \<Rightarrow> string"
  populate :: "group_doc \<Rightarrow> 'p"

record store =
  groups :: "group_doc list"
  groupMessages :: "message_doc list"

datatype 'a outcome = Thrown string | Returned 'a

record response =
  success :: bool
  message :: string
  group :: "group_doc option"

subsection \<open>Store primitives\<close>

definition findGroupById :: "group_id \<Rightarrow> group_doc list \<Rightarrow> group_doc option" where
  "findGroupById i gs = find (\<lambda>g. gid g = i) gs"

definition findMessageById :: "message_id \<Rightarrow> message_doc list \<Rightarrow> message_doc option" where
  "findMessageById i ms = find (\<lambda>m. mid m = i) ms"

text \<open>\<^verbatim>\<open>doc.save()\<close> writes the document back under its \<^verbatim>\<open>_id\<close>.\<close>

definition saveGroup :: "group_doc \<Rightarrow> group_doc list \<Rightarrow> group_doc list" where
  "saveGroup g gs = map (\<lambda>h. if gid h = gid g then g else h) gs"

definition saveMessage :: "message_doc \<Rightarrow> message_doc list \<Rightarrow> message_doc list" where
  "saveMessage m ms = map (\<lambda>h. if mid h = mid m then m else h) ms"

text \<open>\<^verbatim>\<open>create\<close> gives the new document an \<^verbatim>\<open>_id\<close> that no document of the collection has.\<close>

definition fresh_id :: "nat list \<Rightarrow> nat" where
  "fresh_id ids = Suc (fold max ids 0)"

text \<open>
  \<^verbatim>\<open>.limit(n)\<close> of the document store: at most \<open>n\<close> documents, and a limit of \<open>0\<close> is
  the store's way of saying "no limit". \<^verbatim>\<open>.skip(k)\<close> drops the first \<open>k\<close>; the store
  skips before it limits, whatever the order of the two calls in the query chain.
  \<^verbatim>\<open>.sort({createdAt: -1})\<close> is newest first.
\<close>

definition limit_docs :: "nat \<Rightarrow> 'a list \<Rightarrow> 'a list" where
  "limit_docs n xs = (if n = 0 then xs else take n xs)"

definition skip_docs :: "nat \<Rightarrow> 'a list \<Rightarrow> 'a list" where
  "skip_docs k xs = drop k xs"

definition sort_createdAt_desc :: "message_doc list \<Rightarrow> message_doc list" where
  "sort_createdAt_desc ms = rev (sort_key createdAt ms)"

subsection \<open>JavaScript helpers\<close>

text \<open>\<^verbatim>\<open>[...new Set(xs)]\<close>: the elements of \<open>xs\<close> in order of first occurrence.\<close>

definition set_add :: "'a list \<Rightarrow> 'a \<Rightarrow> 'a list" where
  "set_add acc x = (if x \<in> set acc then acc else acc @ [x])"

definition new_Set :: "'a list \<Rightarrow> 'a list" where
  "new_Set xs = foldl set_add [] xs"

text \<open>
  \<^verbatim>\<open>String.prototype.trim\<close> removes white space and line terminators from both ends:
  tab, line feed, vertical tab, form feed, carriage return, space, no-break space
  (U+00A0), U+1680, U+2000 to U+200A, the line and paragraph separators (U+2028,
  U+2029), U+202F, U+205F, U+3000 and the byte order mark (U+FEFF).
\<close>

definition is_space :: "16 word \<Rightarrow> bool" where
  "is_space c = (c \<in> set [0x0009, 0x000A, 0x000B, 0x000C, 0x000D, 0x0020, 0x00A0, 0x1680,
      0x2000, 0x2001, 0x2002, 0x2003, 0x2004, 0x2005, 0x2006, 0x2007, 0x2008, 0x2009, 0x200A,
      0x2028, 0x2029, 0x202F, 0x205F, 0x3000, 0xFEFF])"

definition trim :: "js_string \<Rightarrow> js_string" where
  "trim s = rev (dropWhile is_space (rev (dropWhile is_space s)))"

text \<open>\<^verbatim>\<open>a || b\<close> on an optional string: \<^verbatim>\<open>undefined\<close>, \<^verbatim>\<open>null\<close> and \<^verbatim>\<open>""\<close> are falsy.\<close>

definition or_string :: "js_string option \<Rightarrow> js_string \<Rightarrow> js_string" where
  "or_string a b = (case a of None \<Rightarrow> b | Some x \<Rightarrow> if x = [] then b else x)"

text \<open>Decimal rendering of a number inside a template literal.\<close>

definition digit_char :: "nat \<Rightarrow> char" where
  "digit_char d = ''0123456789'' ! d"

fun show_nat :: "nat \<Rightarrow> string" where
  "show_nat n = (if n < 10 then [digit_char n] else show_nat (n div 10) @ [digit_char (n mod 10)])"

declare show_nat.simps [simp del]

definition show_int :: "int \<Rightarrow> string" where
  "show_int i = (if i < 0 then CHR ''-'' # show_nat (nat (- i)) else show_nat (nat i))"

text \<open>The \<^verbatim>\<open>catch\<close> block of the membership mutations.\<close>

definition failure :: "string \<Rightarrow> response" where
  "failure msg = \<lparr>success = False, message = msg, group = None\<rparr>"

section \<open>Queries\<close>

text \<open>
  \<^verbatim>\<open>getGroupMessages(_, {groupId, limit = 50, offset = 0})\<close>. The resolver does not take
  the context argument; the model passes it, so that what the result depends on can be
  stated. An absent \<^verbatim>\<open>limit\<close> or \<^verbatim>\<open>offset\<close> is \<open>None\<close>.
\<close>

definition getGroupMessages ::
  "context \<Rightarrow> store \<Rightarrow> group_id \<Rightarrow> nat option \<Rightarrow> nat option \<Rightarrow> message_doc list outcome" where
  "getGroupMessages ctx s groupId limit offset =
    (let lim = (case limit of None \<Rightarrow> 50 | Some l \<Rightarrow> l);
         off = (case offset of None \<Rightarrow> 0 | Some k \<Rightarrow> k);
         found = filter (\<lambda>m. group_ref m = groupId \<and> isDeleted m = False) (groupMessages s);
         messages = limit_docs lim (skip_docs off (sort_createdAt_desc found))
     in Returned (rev messages))"

text \<open>
  \<^verbatim>\<open>searchGroups(_, {query, limit = 10})\<close>. The regular expression engine of the store is
  a parameter: \<open>regex_i q\<close> is the case-insensitive matcher of the pattern \<open>q\<close>, or the
  store's error message when \<open>q\<close> is not a pattern.
\<close>

definition searchGroups ::
  "(string \<Rightarrow> string + (js_string \<Rightarrow> bool)) \<Rightarrow> context \<Rightarrow> store \<Rightarrow> string \<Rightarrow> nat option
    \<Rightarrow> group_doc list outcome" where
  "searchGroups regex_i ctx s query limit =
    (let lim = (case limit of None \<Rightarrow> 10 | Some l \<Rightarrow> l) in
     case regex_i query of
       Inl err \<Rightarrow> Thrown (''Error searching groups: '' @ err)
     | Inr matches \<Rightarrow>
         Returned (limit_docs lim
           (filter (\<lambda>g. isPrivate g = False \<and> (matches (name g) \<or> matches (description g)))
             (groups s))))"

section \<open>Mutations\<close>

text \<open>
  Each mutation is a \<^verbatim>\<open>try\<close> block and a \<^verbatim>\<open>catch\<close> block. The function \<open>_try\<close>
  is the \<^verbatim>\<open>try\<close> block: \<open>Inl msg\<close> is \<^verbatim>\<open>throw new Error(msg)\<close>, \<open>Inr\<close> the value
  returned with the store after the writes. In every resolver the throws precede the
  first write, so a thrown error leaves the store as it was.
\<close>

subsection \<open>createGroup\<close>

record create_input =
  in_name :: js_string
  in_description :: "js_string option"
  in_groupImage :: "string option"
  in_members :: "string list"
  in_isPrivate :: "bool option"
  in_maxMembers :: "int option"

text \<open>
  Beside the object-document mapper, \<open>uploadImage\<close> is a parameter: the
  resize-and-upload pipeline, which gives the public URL of the image or fails.
  \<^verbatim>\<open>Group.create\<close> casts the members, the admins and the creator to object ids and
  refuses the document when a value does not cast; the resolver returns the group read
  back and hydrated.
\<close>

definition createGroup_try ::
  "'p mongoose \<Rightarrow> (string \<Rightarrow> string option) \<Rightarrow> context \<Rightarrow> store \<Rightarrow> create_input
    \<Rightarrow> string + ('p option \<times> store)" where
  "createGroup_try odm uploadImage ctx s input =
    (case user ctx of
       None \<Rightarrow> Inl ''Authentication required''
     | Some u \<Rightarrow>
        if user_id u = [] then Inl ''Authentication required''
        else if in_name input = [] \<or> length (trim (in_name input)) = 0
          then Inl ''Group name is required''
        else if length (in_members input) = 0 then Inl ''At least one member is required''
        else if length (filter (\<lambda>i. \<not> isValid odm i) (in_members input)) > 0
          then Inl ''Invalid member IDs provided''
        else
          let members' = new_Set (user_id u # in_members input);
              uploaded = (case in_groupImage input of
                            None \<Rightarrow> Some []
                          | Some img \<Rightarrow> uploadImage img)
          in (case uploaded of
               None \<Rightarrow> Inl ''Failed to upload group image''
             | Some groupImageUrl \<Rightarrow>
                 (case (castObjectId odm (user_id u), those (map (castObjectId odm) members')) of
                    (Some creator, Some memberIds) \<Rightarrow>
                      let groupData = \<lparr>
                            gid = fresh_id (map gid (groups s)),
                            name = in_name input,
                            description = or_string (in_description input) [],
                            groupImage = groupImageUrl,
                            members = memberIds,
                            admins = [creator],
                            createdBy = creator,
                            isPrivate =
                              (case in_isPrivate input of None \<Rightarrow> False | Some b \<Rightarrow> b),
                            maxMembers = (case in_maxMembers input of
                                            None \<Rightarrow> 256
                                          | Some n \<Rightarrow> if n = 0 then 256 else n),
                            lastMessage = None,
                            updatedAt = clock ctx\<rparr>;
                          s' = s\<lparr>groups := groups s @ [groupData]\<rparr>
                      in Inr (map_option (populate odm)
                                (findGroupById (gid groupData) (groups s')), s')
                  | _ \<Rightarrow>
                      Inl (validationMessage odm
                             (InvalidObjectIds
                                (filter (\<lambda>i. castObjectId odm i = None) members'))))))"

definition createGroup ::
  "'p mongoose \<Rightarrow> (string \<Rightarrow> string option) \<Rightarrow> context \<Rightarrow> store \<Rightarrow> create_input
    \<Rightarrow> 'p option outcome \<times> store" where
  "createGroup odm uploadImage ctx s input =
    (case createGroup_try odm uploadImage ctx s input of
       Inl msg \<Rightarrow> (Thrown (''Error creating group: '' @ msg), s)
     | Inr (g, s') \<Rightarrow> (Returned g, s'))"

subsection \<open>sendGroupMessage\<close>

text \<open>
  \<^verbatim>\<open>GroupMessage.create\<close> applies the schema: the content is trimmed, and a media
  descriptor, being an object, does not cast to the string path \<^verbatim>\<open>media\<close>, so that
  \<^verbatim>\<open>create\<close> throws a validation error and writes nothing.
\<close>

definition sendGroupMessage_try ::
  "'p mongoose \<Rightarrow> context \<Rightarrow> store \<Rightarrow> group_id \<Rightarrow> js_string option \<Rightarrow> message_type option
    \<Rightarrow> media_descriptor option \<Rightarrow> message_id option \<Rightarrow> string + (message_doc option \<times> store)" where
  "sendGroupMessage_try odm ctx s groupId content' messageType' media' replyTo' =
    (let mtype = (case messageType' of None \<Rightarrow> Text | Some t \<Rightarrow> t) in
     case user ctx of
       None \<Rightarrow> Inl ''Authentication required''
     | Some u \<Rightarrow>
        (case findGroupById groupId (groups s) of
           None \<Rightarrow> Inl ''You are not a member of this group''
         | Some g \<Rightarrow>
            if user_id u \<notin> set (members g) then Inl ''You are not a member of this group''
            else
              (case media' of
                 Some descriptor \<Rightarrow> Inl (validationMessage odm (InvalidMedia descriptor))
               | None \<Rightarrow>
                  let msg = \<lparr>
                        mid = fresh_id (map mid (groupMessages s)),
                        group_ref = groupId,
                        sender = user_id u,
                        content = map_option trim content',
                        messageType = mtype,
                        media = None,
                        replyTo = replyTo',
                        isDeleted = False,
                        readBy = [],
                        createdAt = clock ctx\<rparr>;
                      s1 = s\<lparr>groupMessages := groupMessages s @ [msg]\<rparr>;
                      s2 = s1\<lparr>groups :=
                        map (\<lambda>h. if gid h = groupId
                              then h\<lparr>lastMessage := Some \<lparr>
                                      last_content =
                                        or_string content' (utf16 (''Sent a '' @ type_name mtype)),
                                      last_sender = user_id u,
                                      last_timestamp = clock ctx\<rparr>,
                                    updatedAt := clock ctx\<rparr>
                              else h) (groups s1)\<rparr>
                  in Inr (findMessageById (mid msg) (groupMessages s2), s2))))"

definition sendGroupMessage ::
  "'p mongoose \<Rightarrow> context \<Rightarrow> store \<Rightarrow> group_id \<Rightarrow> js_string option \<Rightarrow> message_type option
    \<Rightarrow> media_descriptor option \<Rightarrow> message_id option \<Rightarrow> message_doc option outcome \<times> store" where
  "sendGroupMessage odm ctx s groupId content' messageType' media' replyTo' =
    (case sendGroupMessage_try odm ctx s groupId content' messageType' media' replyTo' of
       Inl msg \<Rightarrow> (Thrown (''Error sending group message: '' @ msg), s)
     | Inr (m, s') \<Rightarrow> (Returned m, s'))"

subsection \<open>addGroupMembers\<close>

definition addGroupMembers_try ::
  "context \<Rightarrow> store \<Rightarrow> group_id \<Rightarrow> object_id list \<Rightarrow> string + (response \<times> store)" where
  "addGroupMembers_try ctx s groupId memberIds =
    (case user ctx of
       None \<Rightarrow> Inl ''Authentication required''
     | Some u \<Rightarrow>
        (case findGroupById groupId (groups s) of
           None \<Rightarrow> Inl ''Group not found''
         | Some g \<Rightarrow>
            if user_id u \<notin> set (admins g) then Inl ''Only admins can add members''
            else
              let newMemberCount = int (length (members g)) + int (length memberIds) in
              if newMemberCount > maxMembers g
              then Inl (''Cannot exceed maximum members limit of '' @ show_int (maxMembers g))
              else
                let uniqueNewMembers = filter (\<lambda>i. i \<notin> set (members g)) memberIds;
                    g' = g\<lparr>members := members g @ uniqueNewMembers\<rparr>;
                    s' = s\<lparr>groups := saveGroup g' (groups s)\<rparr>
                in Inr (\<lparr>success = True,
                         message = show_nat (length uniqueNewMembers) @ '' members added successfully'',
                         group = findGroupById groupId (groups s')\<rparr>, s')))"

definition addGroupMembers ::
  "context \<Rightarrow> store \<Rightarrow> group_id \<Rightarrow> object_id list \<Rightarrow> response outcome \<times> store" where
  "addGroupMembers ctx s groupId memberIds =
    (case addGroupMembers_try ctx s groupId memberIds of
       Inl msg \<Rightarrow> (Returned (failure msg), s)
     | Inr (r, s') \<Rightarrow> (Returned r, s'))"

subsection \<open>removeGroupMember and leaveGroup\<close>

definition removeGroupMember_try ::
  "context \<Rightarrow> store \<Rightarrow> group_id \<Rightarrow> object_id \<Rightarrow> string + (response \<times> store)" where
  "removeGroupMember_try ctx s groupId memberId =
    (case user ctx of
       None \<Rightarrow> Inl ''Authentication required''
     | Some u \<Rightarrow>
        (case findGroupById groupId (groups s) of
           None \<Rightarrow> Inl ''Group not found''
         | Some g \<Rightarrow>
            if user_id u \<notin> set (admins g) \<and> user_id u \<noteq> memberId
              then Inl ''Only admins can remove members''
            else if createdBy g = memberId then Inl ''Cannot remove group creator''
            else
              let g' = g\<lparr>members := filter (\<lambda>i. i \<noteq> memberId) (members g),
                         admins := filter (\<lambda>i. i \<noteq> memberId) (admins g)\<rparr>;
                  s' = s\<lparr>groups := saveGroup g' (groups s)\<rparr>
              in Inr (\<lparr>success = True, message = ''Member removed successfully'',
                       group = findGroupById groupId (groups s')\<rparr>, s')))"

definition removeGroupMember ::
  "context \<Rightarrow> store \<Rightarrow> group_id \<Rightarrow> object_id \<Rightarrow> response outcome \<times> store" where
  "removeGroupMember ctx s groupId memberId =
    (case removeGroupMember_try ctx s groupId memberId of
       Inl msg \<Rightarrow> (Returned (failure msg), s)
     | Inr (r, s') \<Rightarrow> (Returned r, s'))"

definition leaveGroup_try ::
  "context \<Rightarrow> store \<Rightarrow> group_id \<Rightarrow> string + (response \<times> store)" where
  "leaveGroup_try ctx s groupId =
    (case user ctx of
       None \<Rightarrow> Inl ''Authentication required''
     | Some u \<Rightarrow>
        (case findGroupById groupId (groups s) of
           None \<Rightarrow> Inl ''Group not found''
         | Some g \<Rightarrow>
            if createdBy g = user_id u
              then Inl ''Group creator cannot leave. Transfer ownership first or delete the group.''
            else
              let g' = g\<lparr>members := filter (\<lambda>i. i \<noteq> user_id u) (members g),
                         admins := filter (\<lambda>i. i \<noteq> user_id u) (admins g)\<rparr>;
                  s' = s\<lparr>groups := saveGroup g' (groups s)\<rparr>
              in Inr (\<lparr>success = True, message = ''Left group successfully'',
                       group = findGroupById groupId (groups s')\<rparr>, s')))"

definition leaveGroup :: "context \<Rightarrow> store \<Rightarrow> group_id \<Rightarrow> response outcome \<times> store" where
  "leaveGroup ctx s groupId =
    (case leaveGroup_try ctx s groupId of
       Inl msg \<Rightarrow> (Returned (failure msg), s)
     | Inr (r, s') \<Rightarrow> (Returned r, s'))"

subsection \<open>updateGroup\<close>

text \<open>An argument that is \<^verbatim>\<open>undefined\<close> is \<open>None\<close> and leaves its field as it is.\<close>

definition updateGroup_try ::
  "context \<Rightarrow> store \<Rightarrow> group_id \<Rightarrow> js_string option \<Rightarrow> js_string option \<Rightarrow> string option
    \<Rightarrow> string + (group_doc option \<times> store)" where
  "updateGroup_try ctx s groupId name' description' groupImage' =
    (case user ctx of
       None \<Rightarrow> Inl ''Authentication required''
     | Some u \<Rightarrow>
        (case findGroupById groupId (groups s) of
           None \<Rightarrow> Inl ''Group not found''
         | Some g \<Rightarrow>
            if user_id u \<notin> set (admins g) then Inl ''Only admins can update group''
            else
              let updateData = (\<lambda>h.
                    h\<lparr>name := (case name' of None \<Rightarrow> name h | Some n \<Rightarrow> n),
                      description := (case description' of None \<Rightarrow> description h | Some d \<Rightarrow> d),
                      groupImage := (case groupImage' of None \<Rightarrow> groupImage h | Some i \<Rightarrow> i)\<rparr>);
                  s' = s\<lparr>groups := map (\<lambda>h. if gid h = groupId then updateData h else h) (groups s)\<rparr>
              in Inr (findGroupById groupId (groups s'), s')))"

definition updateGroup ::
  "context \<Rightarrow> store \<Rightarrow> group_id \<Rightarrow> js_string option \<Rightarrow> js_string option \<Rightarrow> string option
    \<Rightarrow> group_doc option outcome \<times> store" where
  "updateGroup ctx s groupId name' description' groupImage' =
    (case updateGroup_try ctx s groupId name' description' groupImage' of
       Inl msg \<Rightarrow> (Thrown (''Error updating group: '' @ msg), s)
     | Inr (g, s') \<Rightarrow> (Returned g, s'))"

subsection \<open>deleteGroup\<close>

definition deleteGroup_try :: "context \<Rightarrow> store \<Rightarrow> group_id \<Rightarrow> string + (response \<times> store)" where
  "deleteGroup_try ctx s groupId =
    (case user ctx of
       None \<Rightarrow> Inl ''Authentication required''
     | Some u \<Rightarrow>
        (case findGroupById groupId (groups s) of
           None \<Rightarrow> Inl ''Group not found''
         | Some g \<Rightarrow>
            if createdBy g \<noteq> user_id u then Inl ''Only group creator can delete the group''
            else
              let s1 = s\<lparr>groupMessages := filter (\<lambda>m. group_ref m \<noteq> groupId) (groupMessages s)\<rparr>;
                  s2 = s1\<lparr>groups := filter (\<lambda>h. gid h \<noteq> groupId) (groups s1)\<rparr>
              in Inr (\<lparr>success = True, message = ''Group deleted successfully'', group = None\<rparr>,
                      s2)))"

definition deleteGroup :: "context \<Rightarrow> store \<Rightarrow> group_id \<Rightarrow> response outcome \<times> store" where
  "deleteGroup ctx s groupId =
    (case deleteGroup_try ctx s groupId of
       Inl msg \<Rightarrow> (Returned (failure msg), s)
     | Inr (r, s') \<Rightarrow> (Returned r, s'))"

subsection \<open>makeGroupAdmin\<close>

definition makeGroupAdmin_try ::
  "context \<Rightarrow> store \<Rightarrow> group_id \<Rightarrow> object_id \<Rightarrow> string + (response \<times> store)" where
  "makeGroupAdmin_try ctx s groupId memberId =
    (case user ctx of
       None \<Rightarrow> Inl ''Authentication required''
     | Some u \<Rightarrow>
        (case findGroupById groupId (groups s) of
           None \<Rightarrow> Inl ''Group not found''
         | Some g \<Rightarrow>
            if user_id u \<notin> set (admins g) then Inl ''Only admins can promote members''
            else if memberId \<notin> set (members g) then Inl ''User is not a member of this group''
            else
              let s' = (if memberId \<notin> set (admins g)
                        then s\<lparr>groups := saveGroup (g\<lparr>admins := admins g @ [memberId]\<rparr>) (groups s)\<rparr>
                        else s)
              in Inr (\<lparr>success = True, message = ''Member promoted to admin successfully'',
                       group = findGroupById groupId (groups s')\<rparr>, s')))"

definition makeGroupAdmin ::
  "context \<Rightarrow> store \<Rightarrow> group_id \<Rightarrow> object_id \<Rightarrow> response outcome \<times> store" where
  "makeGroupAdmin ctx s groupId memberId =
    (case makeGroupAdmin_try ctx s groupId memberId of
       Inl msg \<Rightarrow> (Returned (failure msg), s)
     | Inr (r, s') \<Rightarrow> (Returned r, s'))"

subsection \<open>markGroupMessageAsRead\<close>

definition markGroupMessageAsRead_try ::
  "context \<Rightarrow> store \<Rightarrow> message_id \<Rightarrow> string + (message_doc option \<times> store)" where
  "markGroupMessageAsRead_try ctx s messageId =
    (case user ctx of
       None \<Rightarrow> Inl ''Authentication required''
     | Some u \<Rightarrow>
        (case findMessageById messageId (groupMessages s) of
           None \<Rightarrow> Inl ''Message not found''
         | Some m \<Rightarrow>
            let alreadyRead = list_ex (\<lambda>r. read_user r = user_id u) (readBy m);
                s' = (if \<not> alreadyRead
                      then s\<lparr>groupMessages :=
                             saveMessage
                               (m\<lparr>readBy := readBy m @ [\<lparr>read_user = user_id u, readAt = clock ctx\<rparr>]\<rparr>)
                               (groupMessages s)\<rparr>
                      else s)
            in Inr (findMessageById messageId (groupMessages s'), s')))"

definition markGroupMessageAsRead ::
  "context \<Rightarrow> store \<Rightarrow> message_id \<Rightarrow> message_doc option outcome \<times> store" where
  "markGroupMessageAsRead ctx s messageId =
    (case markGroupMessageAsRead_try ctx s messageId of
       Inl msg \<Rightarrow> (Thrown (''Error marking message as read: '' @ msg), s)
     | Inr (m, s') \<Rightarrow> (Returned m, s'))"

subsection \<open>The resolver map\<close>

text \<open>
  A request to the \<^verbatim>\<open>Mutation\<close> map names a resolver and gives its arguments; \<open>Mutation\<close>
  is the store after the request.
\<close>

datatype mutation =
    CreateGroup create_input
  | SendGroupMessage group_id "js_string option" "message_type option"
      "media_descriptor option" "message_id option"
  | AddGroupMembers group_id "object_id list"
  | RemoveGroupMember group_id object_id
  | LeaveGroup group_id
  | UpdateGroup group_id "js_string option" "js_string option" "string option"
  | DeleteGroup group_id
  | MakeGroupAdmin group_id object_id
  | MarkGroupMessageAsRead message_id

fun Mutation ::
  "'p mongoose \<Rightarrow> (string \<Rightarrow> string option) \<Rightarrow> context \<Rightarrow> store \<Rightarrow> mutation \<Rightarrow> store" where
  "Mutation odm uploadImage ctx s (CreateGroup input) =
     snd (createGroup odm uploadImage ctx s input)"
| "Mutation odm uploadImage ctx s (SendGroupMessage g c t m r) =
     snd (sendGroupMessage odm ctx s g c t m r)"
| "Mutation odm uploadImage ctx s (AddGroupMembers g ms) = snd (addGroupMembers ctx s g ms)"
| "Mutation odm uploadImage ctx s (RemoveGroupMember g m) = snd (removeGroupMember ctx s g m)"
| "Mutation odm uploadImage ctx s (LeaveGroup g) = snd (leaveGroup ctx s g)"
| "Mutation odm uploadImage ctx s (UpdateGroup g n d i) = snd (updateGroup ctx s g n d i)"
| "Mutation odm uploadImage ctx s (DeleteGroup g) = snd (deleteGroup ctx s g)"
| "Mutation odm uploadImage ctx s (MakeGroupAdmin g m) = snd (makeGroupAdmin ctx s g m)"
| "Mutation odm uploadImage ctx s (MarkGroupMessageAsRead m) =
     snd (markGroupMessageAsRead ctx s m)"

text \<open>
  The stores the resolvers can produce: both collections start empty, and every change
  is a request to the \<^verbatim>\<open>Mutation\<close> map.
\<close>

definition empty_store :: store where
  "empty_store = \<lparr>groups = [], groupMessages = []\<rparr>"

inductive reachable :: "'p mongoose \<Rightarrow> (string \<Rightarrow> string option) \<Rightarrow> store \<Rightarrow> bool"
  for odm :: "'p mongoose" and uploadImage :: "string \<Rightarrow> string option" where
  initial: "reachable odm uploadImage empty_store"
| request: "reachable odm uploadImage s
    \<Longrightarrow> reachable odm uploadImage (Mutation odm uploadImage ctx s m)"

text \<open>The invariants of the data model, on every document of the store.\<close>

definition admins_subset :: "store \<Rightarrow> bool" where
  "admins_subset s = (\<forall>g \<in> set (groups s). set (admins g) \<subseteq> set (members g))"

definition receipts_distinct :: "store \<Rightarrow> bool" where
  "receipts_distinct s = (\<forall>m \<in> set (groupMessages s). distinct (map read_user (readBy m)))"

section \<open>Example data\<close>

text \<open>
  The scenario of the specification: the private group "Team" of \<open>u1\<close> (creator and
  admin) and \<open>u2\<close>, with room for three members, and a message history \<open>M1\<close>
  (oldest) to \<open>M5\<close> (newest), beside a soft-deleted message and a message of another
  group.
\<close>

definition acting_as :: "object_id \<Rightarrow> timestamp \<Rightarrow> context" where
  "acting_as i t = \<lparr>user = Some \<lparr>user_id = i\<rparr>, clock = t\<rparr>"

definition anonymous :: "timestamp \<Rightarrow> context" where
  "anonymous t = \<lparr>user = None, clock = t\<rparr>"

definition team :: group_doc where
  "team = \<lparr>gid = 1, name = utf16 ''Team'', description = [], groupImage = [],
            members = [''u1'', ''u2''], admins = [''u1''], createdBy = ''u1'',
            isPrivate = True, maxMembers = 3, lastMessage = None, updatedAt = 0\<rparr>"

definition text_message :: "message_id \<Rightarrow> group_id \<Rightarrow> timestamp \<Rightarrow> bool \<Rightarrow> message_doc" where
  "text_message i g t d =
     \<lparr>mid = i, group_ref = g, sender = ''u1'', content = Some (utf16 ''hello''),
      messageType = Text,
      media = None, replyTo = None, isDeleted = d, readBy = [], createdAt = t\<rparr>"

definition M1 :: message_doc where "M1 = text_message 1 1 10 False"
definition M2 :: message_doc where "M2 = text_message 2 1 20 False"
definition M3 :: message_doc where "M3 = text_message 3 1 30 False"
definition M4 :: message_doc where "M4 = text_message 4 1 40 False"
definition M5 :: message_doc where "M5 = text_message 5 1 50 False"

definition team_store :: store where
  "team_store = \<lparr>groups = [team],
                  groupMessages = [M1, M2, text_message 6 1 25 True, M3, M4,
                                   text_message 7 2 45 False, M5]\<rparr>"

text \<open>
  An object-document mapper for the symbolic identifiers of the scenario: every string is
  an identifier and spells itself, and a group is returned as it is stored.
\<close>

definition spelled_ids :: "group_doc mongoose" where
  "spelled_ids = \<lparr>isValid = (\<lambda>i. True), castObjectId = Some,
                   validationMessage = (\<lambda>v. ''Validation failed''), populate = (\<lambda>g. g)\<rparr>"

text \<open>
  An object-document mapper for identifiers in hexadecimal: an identifier is spelled by
  24 hexadecimal digits, in either case, and is kept in lower case.
\<close>

definition to_lower :: "char \<Rightarrow> char" where
  "to_lower c =
     (case map_of (zip ''ABCDEFGHIJKLMNOPQRSTUVWXYZ'' ''abcdefghijklmnopqrstuvwxyz'') c of
        None \<Rightarrow> c
      | Some l \<Rightarrow> l)"

definition hex24 :: "string \<Rightarrow> bool" where
  "hex24 i = (length i = 24 \<and> list_all (\<lambda>c. c \<in> set ''0123456789abcdefABCDEF'') i)"

definition hex_ids :: "group_doc mongoose" where
  "hex_ids = \<lparr>isValid = hex24,
               castObjectId = (\<lambda>i. if hex24 i then Some (map to_lower i) else None),
               validationMessage = (\<lambda>v. ''Validation failed''), populate = (\<lambda>g. g)\<rparr>"

definition alice :: object_id where "alice = ''507f1f77bcf86cd799439011''"
definition bob :: object_id where "bob = ''507f191e810c19729de860ea''"

text \<open>The identifier of \<open>alice\<close> again, spelled in upper case.\<close>

definition alice_upper :: string where "alice_upper = ''507F1F77BCF86CD799439011''"

definition crew_input :: create_input where
  "crew_input = \<lparr>in_name = utf16 ''Crew'', in_description = None, in_groupImage = None,
                  in_members = [alice, bob], in_isPrivate = None, in_maxMembers = None\<rparr>"

definition twice_input :: create_input where
  "twice_input = crew_input\<lparr>in_members := [alice_upper, bob]\<rparr>"

definition photo :: media_descriptor where
  "photo = \<lparr>media_url = ''https://example.org/p.jpg'', media_type = ''image'',
             media_filename = ''p.jpg'', media_size = 2048\<rparr>"

definition team_input :: create_input where
  "team_input = \<lparr>in_name = utf16 ''Team'', in_description = None, in_groupImage = None,
                  in_members = [''u1'', ''u2''], in_isPrivate = None, in_maxMembers = None\<rparr>"

text \<open>
  A store the resolvers produce from the empty one: \<open>u1\<close> creates "Team" and sends a
  first message.
\<close>

definition chat_store :: store where
  "chat_store =
     Mutation spelled_ids (\<lambda>img. None) (acting_as ''u1'' 10)
       (Mutation spelled_ids (\<lambda>img. None) (acting_as ''u1'' 5) empty_store
          (CreateGroup team_input))
       (SendGroupMessage 1 (Some (utf16 ''hello'')) None None None)"

definition first_message :: message_doc where
  "first_message = text_message 1 1 10 False"

text \<open>
  A directory of groups to search, and a matcher for the examples: the regular expression
  of a pattern without metacharacters matches the strings that contain it, here up to
  the case of ASCII letters.
\<close>

definition lower_unit :: "16 word \<Rightarrow> 16 word" where
  "lower_unit c =
     (case map_of (zip (utf16 ''ABCDEFGHIJKLMNOPQRSTUVWXYZ'')
                       (utf16 ''abcdefghijklmnopqrstuvwxyz'')) c of
        None \<Rightarrow> c
      | Some l \<Rightarrow> l)"

fun has_prefix :: "'a list \<Rightarrow> 'a list \<Rightarrow> bool" where
  "has_prefix [] s = True"
| "has_prefix (p # ps) [] = False"
| "has_prefix (p # ps) (c # cs) = (p = c \<and> has_prefix ps cs)"

fun contains :: "'a list \<Rightarrow> 'a list \<Rightarrow> bool" where
  "contains p [] = (p = [])"
| "contains p (c # cs) = (has_prefix p (c # cs) \<or> contains p cs)"

definition literal_i :: "string \<Rightarrow> string + (js_string \<Rightarrow> bool)" where
  "literal_i q = Inr (\<lambda>s. contains (map lower_unit (utf16 q)) (map lower_unit s))"

definition public_group :: "group_id \<Rightarrow> string \<Rightarrow> string \<Rightarrow> group_doc" where
  "public_group i n d =
     \<lparr>gid = i, name = utf16 n, description = utf16 d, groupImage = [],
      members = [''u3''], admins = [''u3''], createdBy = ''u3'',
      isPrivate = False, maxMembers = 256, lastMessage = None, updatedAt = 0\<rparr>"

definition directory :: store where
  "directory =
     \<lparr>groups = [team, public_group 2 ''Team Rocket'' [], public_group 3 ''Chess'' ''a TEAM game'',
                public_group 4 ''Cooking'' []],
      groupMessages = []\<rparr>"

section \<open>Facts about the store primitives\<close>

lemma fold_max_ge_init: "(a::nat) \<le> fold max ids a"
proof (induction ids arbitrary: a)
  case Nil
  show ?case by simp
next
  case (Cons y ys)
  have "a \<le> max y a" by simp
  also have "\<dots> \<le> fold max ys (max y a)" by (rule Cons.IH)
  finally show ?case by simp
qed

lemma fold_max_ge_elem: "x \<in> set ids \<Longrightarrow> (x::nat) \<le> fold max ids a"
proof (induction ids arbitrary: a)
  case Nil
  then show ?case by simp
next
  case (Cons y ys)
  show ?case
  proof (cases "x = y")
    case True
    have "x \<le> max y a" using True by simp
    also have "\<dots> \<le> fold max ys (max y a)" by (rule fold_max_ge_init)
    finally show ?thesis by simp
  next
    case False
    with Cons.prems have "x \<in> set ys" by simp
    then show ?thesis using Cons.IH by simp
  qed
qed

lemma fresh_id_notin: "fresh_id ids \<notin> set ids"
proof
  assume "fresh_id ids \<in> set ids"
  then have "fresh_id ids \<le> fold max ids 0" by (rule fold_max_ge_elem)
  then show False by (simp add: fresh_id_def)
qed

lemma sort_desc_sorted: "sorted (rev (map createdAt (sort_createdAt_desc ms)))"
  by (simp add: sort_createdAt_desc_def rev_map)

lemma sort_desc_mset: "mset (sort_createdAt_desc ms) = mset ms"
  by (simp add: sort_createdAt_desc_def)

lemma sort_desc_set: "set (sort_createdAt_desc ms) = set ms"
  by (simp add: sort_createdAt_desc_def)

lemma sort_desc_of_sorted: "sorted (map createdAt ms) \<Longrightarrow> sort_createdAt_desc ms = rev ms"
  by (simp add: sort_createdAt_desc_def sort_key_id_if_sorted)

lemma limit_docs_set: "set (limit_docs n xs) \<subseteq> set xs"
  by (auto simp: limit_docs_def dest: in_set_takeD)

lemma limit_docs_length: "0 < n \<Longrightarrow> length (limit_docs n xs) \<le> n"
  by (simp add: limit_docs_def)

lemma sorted_wrt_limit: "sorted_wrt P xs \<Longrightarrow> sorted_wrt P (limit_docs n xs)"
  by (simp add: limit_docs_def sorted_wrt_take)

lemma page_sorted:
  assumes "sorted (rev (map createdAt xs))"
  shows "sorted (map createdAt (rev (limit_docs n (skip_docs k xs))))"
proof -
  from assms have "sorted_wrt (\<lambda>a b. createdAt b \<le> createdAt a) xs"
    by (simp add: rev_map[symmetric] sorted_wrt_map sorted_wrt_rev)
  then have "sorted_wrt (\<lambda>a b. createdAt b \<le> createdAt a) (limit_docs n (skip_docs k xs))"
    by (simp add: sorted_wrt_limit skip_docs_def sorted_wrt_drop)
  then show ?thesis by (simp add: sorted_wrt_map sorted_wrt_rev)
qed

lemma findGroupById_Some: "findGroupById i gs = Some g \<Longrightarrow> g \<in> set gs \<and> gid g = i"
  by (auto simp: findGroupById_def find_Some_iff)

lemma findMessageById_Some: "findMessageById i ms = Some m \<Longrightarrow> m \<in> set ms \<and> mid m = i"
  by (auto simp: findMessageById_def find_Some_iff)

lemma findGroupById_saveGroup:
  "findGroupById i gs = Some g \<Longrightarrow> gid g' = i \<Longrightarrow> findGroupById i (saveGroup g' gs) = Some g'"
  by (induction gs) (auto simp: findGroupById_def saveGroup_def)

lemma findMessageById_saveMessage:
  "findMessageById i ms = Some m \<Longrightarrow> mid m' = i
    \<Longrightarrow> findMessageById i (saveMessage m' ms) = Some m'"
  by (induction ms) (auto simp: findMessageById_def saveMessage_def)

lemma set_saveGroup: "set (saveGroup g' gs) \<subseteq> insert g' (set gs)"
  by (auto simp: saveGroup_def)

lemma set_saveMessage: "set (saveMessage m' ms) \<subseteq> insert m' (set ms)"
  by (auto simp: saveMessage_def)

lemma admins_subset_saveGroup:
  assumes "admins_subset s" and "set (admins g') \<subseteq> set (members g')"
  shows "admins_subset (s\<lparr>groups := saveGroup g' (groups s)\<rparr>)"
  using assms set_saveGroup[of g' "groups s"] by (auto simp: admins_subset_def)

lemma admins_subset_found:
  "admins_subset s \<Longrightarrow> findGroupById i (groups s) = Some g \<Longrightarrow> set (admins g) \<subseteq> set (members g)"
  by (auto simp: admins_subset_def dest!: findGroupById_Some)

lemma new_Set_aux: "set (foldl set_add acc xs) = set acc \<union> set xs"
  by (induction xs arbitrary: acc) (auto simp: set_add_def)

lemma new_Set_aux_distinct: "distinct acc \<Longrightarrow> distinct (foldl set_add acc xs)"
  by (induction xs arbitrary: acc) (auto simp: set_add_def)

lemma set_new_Set: "set (new_Set xs) = set xs"
  by (simp add: new_Set_def new_Set_aux)

lemma distinct_new_Set: "distinct (new_Set xs)"
  by (simp add: new_Set_def new_Set_aux_distinct)

lemma those_map_Some: "those (map Some ys) = Some ys"
  by (induction ys) simp_all

lemma those_SomeD: "those xs = Some ys \<Longrightarrow> xs = map Some ys"
proof (induction xs arbitrary: ys)
  case Nil
  then show ?case by simp
next
  case (Cons x xs)
  from Cons.prems obtain a where a: "x = Some a" by (cases x) simp_all
  with Cons.prems obtain zs where zs: "those xs = Some zs" and ys: "ys = a # zs"
    by (cases "those xs") auto
  from Cons.IH[OF zs] a ys show ?case by simp
qed

lemma those_Some_iff: "those xs = Some ys \<longleftrightarrow> xs = map Some ys"
  using those_SomeD[of xs ys] those_map_Some[of ys] by blast

lemma trim_Nil: "trim [] = []"
  by (simp add: trim_def)

lemma createGroup_try_Inr:
  assumes run: "createGroup_try odm uploadImage ctx s input = Inr (r, s')"
  obtains u creator grp where
    "user ctx = Some u" and "user_id u \<noteq> []"
    and "trim (in_name input) \<noteq> []" and "in_members input \<noteq> []"
    and "\<forall>i \<in> set (in_members input). isValid odm i"
    and "\<forall>img. in_groupImage input = Some img \<longrightarrow> uploadImage img \<noteq> None"
    and "castObjectId odm (user_id u) = Some creator"
    and "map (castObjectId odm) (new_Set (user_id u # in_members input)) = map Some (members grp)"
    and "admins grp = [creator]" and "createdBy grp = creator"
    and "name grp = in_name input"
    and "gid grp = fresh_id (map gid (groups s))"
    and "s' = s\<lparr>groups := groups s @ [grp]\<rparr>"
    and "r = map_option (populate odm) (findGroupById (gid grp) (groups s'))"
proof -
  from run obtain u where u: "user ctx = Some u"
    by (cases "user ctx") (simp_all add: createGroup_try_def)
  have c1: "user_id u \<noteq> []"
  proof
    assume "user_id u = []"
    with run u show False by (simp add: createGroup_try_def)
  qed
  have c2: "\<not> (in_name input = [] \<or> length (trim (in_name input)) = 0)"
  proof
    assume "in_name input = [] \<or> length (trim (in_name input)) = 0"
    with run u c1 show False by (simp add: createGroup_try_def)
  qed
  have c3: "in_members input \<noteq> []"
  proof
    assume "in_members input = []"
    with run u c1 c2 show False by (simp add: createGroup_try_def)
  qed
  have c4: "filter (\<lambda>i. \<not> isValid odm i) (in_members input) = []"
  proof (rule ccontr)
    assume "filter (\<lambda>i. \<not> isValid odm i) (in_members input) \<noteq> []"
    with run u c1 c2 c3 show False by (simp add: createGroup_try_def)
  qed
  note chk = c1 c2 c3 c4
  let ?up = "case in_groupImage input of None \<Rightarrow> Some [] | Some img \<Rightarrow> uploadImage img"
  let ?ms = "new_Set (user_id u # in_members input)"
  from run u chk obtain url where url: "?up = Some url"
    by (cases ?up) (simp_all add: createGroup_try_def Let_def)
  from run u chk url obtain creator where c: "castObjectId odm (user_id u) = Some creator"
    by (cases "castObjectId odm (user_id u)") (simp_all add: createGroup_try_def Let_def)
  from run u chk url c obtain ids where ids: "those (map (castObjectId odm) ?ms) = Some ids"
    by (cases "those (map (castObjectId odm) ?ms)") (simp_all add: createGroup_try_def Let_def)
  let ?grp = "\<lparr>gid = fresh_id (map gid (groups s)),
                name = in_name input,
                description = or_string (in_description input) [],
                groupImage = url,
                members = ids,
                admins = [creator],
                createdBy = creator,
                isPrivate = (case in_isPrivate input of None \<Rightarrow> False | Some b \<Rightarrow> b),
                maxMembers = (case in_maxMembers input of
                                None \<Rightarrow> 256
                              | Some n \<Rightarrow> if n = 0 then 256 else n),
                lastMessage = None,
                updatedAt = clock ctx\<rparr>"
  let ?s' = "s\<lparr>groups := groups s @ [?grp]\<rparr>"
  let ?r = "map_option (populate odm) (findGroupById (gid ?grp) (groups ?s'))"
  have "createGroup_try odm uploadImage ctx s input = Inr (?r, ?s')"
    using u chk url c ids by (simp add: createGroup_try_def Let_def)
  from trans[OF run[symmetric] this] have "r = ?r" and s': "s' = ?s'" by simp_all
  then have res: "s' = s\<lparr>groups := groups s @ [?grp]\<rparr>"
    "r = map_option (populate odm) (findGroupById (gid ?grp) (groups s'))"
    by simp_all
  from url have up: "\<forall>img. in_groupImage input = Some img \<longrightarrow> uploadImage img \<noteq> None"
    by (cases "in_groupImage input") auto
  from chk have v: "\<forall>i \<in> set (in_members input). isValid odm i"
    by (simp add: filter_empty_conv)
  from ids have m: "map (castObjectId odm) ?ms = map Some (members ?grp)"
    by (simp add: those_Some_iff)
  from c2 have n: "trim (in_name input) \<noteq> []" by simp
  show thesis
    by (rule that[of u creator ?grp]) (use u c1 n c3 v up c m res in simp_all)
qed

lemmas example_defs = acting_as_def anonymous_def team_def text_message_def M1_def M2_def M3_def
  M4_def M5_def team_store_def to_lower_def lower_unit_def literal_i_def public_group_def
  directory_def team_input_def first_message_def spelled_ids_def hex24_def hex_ids_def
  alice_def bob_def alice_upper_def crew_input_def twice_input_def photo_def

section \<open>The listing query\<close>

text \<open>
  Claim C3. \<^verbatim>\<open>getGroupMessages(groupId, limit, offset)\<close> returns only messages of that
  group whose soft-delete flag is false, oldest first within the returned page, and the
  page is cut from the newest-first ordering of those messages: skip \<open>offset\<close>, then
  limit. Where the group's messages stand in the collection in the order they were
  created, the newest-first ordering is that list reversed; so on \<open>M1\<close> to \<open>M5\<close> with
  limit 2 and offset 0 the result is \<open>[M4, M5]\<close>.
\<close>

theorem getGroupMessages_page:
  "\<exists>ms newest_first.
     getGroupMessages ctx s groupId limit offset = Returned ms
   \<and> set ms \<subseteq> {m \<in> set (groupMessages s). group_ref m = groupId \<and> \<not> isDeleted m}
   \<and> sorted (map createdAt ms)
   \<and> mset newest_first =
       mset (filter (\<lambda>m. group_ref m = groupId \<and> \<not> isDeleted m) (groupMessages s))
   \<and> sorted (rev (map createdAt newest_first))
   \<and> ms = rev (limit_docs (case limit of None \<Rightarrow> 50 | Some l \<Rightarrow> l)
             (skip_docs (case offset of None \<Rightarrow> 0 | Some k \<Rightarrow> k) newest_first))
   \<and> (sorted (map createdAt
          (filter (\<lambda>m. group_ref m = groupId \<and> \<not> isDeleted m) (groupMessages s)))
        \<longrightarrow> newest_first =
          rev (filter (\<lambda>m. group_ref m = groupId \<and> \<not> isDeleted m) (groupMessages s)))"
proof -
  let ?found = "filter (\<lambda>m. group_ref m = groupId \<and> \<not> isDeleted m) (groupMessages s)"
  let ?desc = "sort_createdAt_desc ?found"
  let ?lim = "case limit of None \<Rightarrow> 50 | Some l \<Rightarrow> l"
  let ?off = "case offset of None \<Rightarrow> 0 | Some k \<Rightarrow> k"
  let ?ms = "rev (limit_docs ?lim (skip_docs ?off ?desc))"
  have r: "getGroupMessages ctx s groupId limit offset = Returned ?ms"
    by (simp add: getGroupMessages_def)
  have "set ?ms \<subseteq> set ?desc"
    using limit_docs_set[of ?lim "skip_docs ?off ?desc"] set_drop_subset[of ?off ?desc]
    by (auto simp: skip_docs_def)
  then have sub: "set ?ms \<subseteq> {m \<in> set (groupMessages s). group_ref m = groupId \<and> \<not> isDeleted m}"
    by (auto simp: sort_desc_set)
  have srt: "sorted (map createdAt ?ms)"
    by (rule page_sorted[OF sort_desc_sorted])
  have asc: "sorted (map createdAt ?found) \<longrightarrow> ?desc = rev ?found"
    by (simp add: sort_desc_of_sorted)
  show ?thesis
    using r sub srt sort_desc_mset[of ?found] sort_desc_sorted[of ?found] asc by blast
qed

theorem getGroupMessages_page_witness:
  "getGroupMessages (anonymous 0) team_store 1 (Some 2) (Some 0) = Returned [M4, M5]
   \<and> sorted (map createdAt [M4, M5])
   \<and> sorted (map createdAt [M1, M2, M3, M4, M5])
   \<and> rev [M4, M5] = limit_docs 2 (skip_docs 0 (rev [M1, M2, M3, M4, M5]))"
  using getGroupMessages_page [of "anonymous 0" team_store 1 "Some 2" "Some 0"]
  by (simp add: getGroupMessages_def limit_docs_def skip_docs_def sort_createdAt_desc_def
      example_defs)

text \<open>
  Claim C10. \<^verbatim>\<open>getGroupMessages\<close> makes no authentication or membership check: the
  result is the same for every caller, the absent one included, and every message of a
  group that is not soft-deleted, of a private group as of any other, is on some page
  that any caller can ask for.
\<close>

theorem getGroupMessages_ignores_caller:
  "getGroupMessages ctx s groupId limit offset = getGroupMessages ctx' s groupId limit offset
   \<and> (\<forall>m \<in> set (groupMessages s). group_ref m = groupId \<and> \<not> isDeleted m \<longrightarrow>
        (\<exists>k. getGroupMessages ctx s groupId (Some 1) (Some k) = Returned [m]))"
proof (intro conjI ballI impI)
  show "getGroupMessages ctx s groupId limit offset = getGroupMessages ctx' s groupId limit offset"
    by (simp add: getGroupMessages_def)
next
  fix m
  assume m: "m \<in> set (groupMessages s)" and ok: "group_ref m = groupId \<and> \<not> isDeleted m"
  let ?desc = "sort_createdAt_desc
     (filter (\<lambda>m. group_ref m = groupId \<and> isDeleted m = False) (groupMessages s))"
  from m ok have "m \<in> set ?desc" by (simp add: sort_desc_set)
  then obtain k where k: "k < length ?desc" "?desc ! k = m"
    by (auto simp: in_set_conv_nth)
  then have "take 1 (drop k ?desc) = [m]"
    by (metis Cons_nth_drop_Suc One_nat_def take0 take_Suc_Cons)
  then have "getGroupMessages ctx s groupId (Some 1) (Some k) = Returned [m]"
    by (simp add: getGroupMessages_def limit_docs_def skip_docs_def)
  then show "\<exists>k. getGroupMessages ctx s groupId (Some 1) (Some k) = Returned [m]" ..
qed

theorem getGroupMessages_ignores_caller_witness:
  "isPrivate team \<and> ''u3'' \<notin> set (members team)
   \<and> getGroupMessages (acting_as ''u3'' 0) team_store 1 (Some 2) (Some 0) = Returned [M4, M5]
   \<and> getGroupMessages (anonymous 0) team_store 1 (Some 2) (Some 0) = Returned [M4, M5]
   \<and> M3 \<in> set (groupMessages team_store)
   \<and> (\<exists>k. getGroupMessages (anonymous 0) team_store 1 (Some 1) (Some k) = Returned [M3])"
proof -
  have a: "M3 \<in> set (groupMessages team_store)" "group_ref M3 = 1 \<and> \<not> isDeleted M3"
    by (simp_all add: example_defs)
  have b: "getGroupMessages (anonymous 0) team_store 1 (Some 2) (Some 0) = Returned [M4, M5]"
    by (simp add: getGroupMessages_def limit_docs_def skip_docs_def sort_createdAt_desc_def
      example_defs)
  have c: "isPrivate team \<and> ''u3'' \<notin> set (members team)"
    by (simp add: example_defs)
  have e: "getGroupMessages (acting_as ''u3'' 0) team_store 1 (Some 2) (Some 0)
      = getGroupMessages (anonymous 0) team_store 1 (Some 2) (Some 0)"
    using getGroupMessages_ignores_caller
      [of "acting_as ''u3'' 0" team_store 1 "Some 2" "Some 0" "anonymous 0"]
    by (rule conjunct1)
  have "\<forall>m \<in> set (groupMessages team_store). group_ref m = 1 \<and> \<not> isDeleted m \<longrightarrow>
        (\<exists>k. getGroupMessages (anonymous 0) team_store 1 (Some 1) (Some k) = Returned [m])"
    using getGroupMessages_ignores_caller
      [of "anonymous 0" team_store 1 "Some 2" "Some 0" "anonymous 0"]
    by (rule conjunct2)
  then have f: "\<exists>k. getGroupMessages (anonymous 0) team_store 1 (Some 1) (Some k) = Returned [M3]"
    using a by (elim ballE[of _ _ M3]) simp_all
  show ?thesis using a(1) b c e f by simp
qed

section \<open>The search query\<close>

text \<open>
  Claim C9, amended. For every query string, \<^verbatim>\<open>searchGroups(query, limit)\<close> either
  throws (the store refuses the pattern) or returns groups of the collection whose
  privacy flag is false and whose name or description matches the query
  case-insensitively; no private group is ever returned. It returns at most \<open>limit\<close>
  groups (10 when no limit is given) when the limit is at least 1; the limit goes to
  the store as it is, and the store reads a limit of 0 as no limit.
\<close>

theorem searchGroups_public_matches:
  "(case regex_i query of
      Inl err \<Rightarrow> searchGroups regex_i ctx s query limit = Thrown (''Error searching groups: '' @ err)
    | Inr matches \<Rightarrow>
        (\<exists>gs. searchGroups regex_i ctx s query limit = Returned gs
          \<and> (\<forall>g \<in> set gs. g \<in> set (groups s) \<and> \<not> isPrivate g
                \<and> (matches (name g) \<or> matches (description g)))
          \<and> (0 < (case limit of None \<Rightarrow> 10 | Some l \<Rightarrow> l)
                \<longrightarrow> length gs \<le> (case limit of None \<Rightarrow> 10 | Some l \<Rightarrow> l))))"
proof (cases "regex_i query")
  case (Inl err)
  then show ?thesis by (simp add: searchGroups_def)
next
  case (Inr matches)
  let ?lim = "case limit of None \<Rightarrow> 10 | Some l \<Rightarrow> l"
  let ?hits = "filter (\<lambda>g. isPrivate g = False \<and> (matches (name g) \<or> matches (description g)))
    (groups s)"
  let ?gs = "limit_docs ?lim ?hits"
  from Inr have r: "searchGroups regex_i ctx s query limit = Returned ?gs"
    by (simp add: searchGroups_def)
  have "set ?gs \<subseteq> set ?hits" by (rule limit_docs_set)
  then have 1: "\<forall>g \<in> set ?gs. g \<in> set (groups s) \<and> \<not> isPrivate g
          \<and> (matches (name g) \<or> matches (description g))" by auto
  have 2: "0 < ?lim \<longrightarrow> length ?gs \<le> ?lim" by (simp add: limit_docs_length)
  from r 1 2 have "\<exists>gs. searchGroups regex_i ctx s query limit = Returned gs
          \<and> (\<forall>g \<in> set gs. g \<in> set (groups s) \<and> \<not> isPrivate g
                \<and> (matches (name g) \<or> matches (description g)))
          \<and> (0 < ?lim \<longrightarrow> length gs \<le> ?lim)"
    by (intro exI[of _ ?gs] conjI)
  with Inr show ?thesis by simp
qed

theorem searchGroups_public_matches_witness:
  "searchGroups literal_i (anonymous 0) directory ''team'' (Some 1)
     = Returned [public_group 2 ''Team Rocket'' []]
   \<and> searchGroups literal_i (anonymous 0) directory ''team'' None
     = Returned [public_group 2 ''Team Rocket'' [], public_group 3 ''Chess'' ''a TEAM game'']
   \<and> team \<in> set (groups directory) \<and> isPrivate team \<and> name team = utf16 ''Team''"
  using searchGroups_public_matches
    [where regex_i = literal_i and query = "''team''" and ctx = "anonymous 0" and s = directory
       and limit = "Some 1"]
  by (simp add: searchGroups_def limit_docs_def utf16_def example_defs)

theorem searchGroups_limit_zero_counterexample:
  "\<not> (\<forall>gs. searchGroups literal_i (anonymous 0) directory ''team'' (Some 0) = Returned gs
        \<longrightarrow> length gs \<le> 0)"
proof
  assume h: "\<forall>gs. searchGroups literal_i (anonymous 0) directory ''team'' (Some 0) = Returned gs
        \<longrightarrow> length gs \<le> 0"
  have "searchGroups literal_i (anonymous 0) directory ''team'' (Some 0)
      = Returned [public_group 2 ''Team Rocket'' [], public_group 3 ''Chess'' ''a TEAM game'']"
    by (simp add: searchGroups_def limit_docs_def utf16_def example_defs)
  with h show False by fastforce
qed

section \<open>Admins are members\<close>

lemma createGroup_admins_subset:
  assumes "admins_subset s"
  shows "admins_subset (snd (createGroup odm uploadImage ctx s input))"
proof (cases "createGroup_try odm uploadImage ctx s input")
  case (Inl msg)
  with assms show ?thesis by (simp add: createGroup_def)
next
  case (Inr p)
  obtain r s' where p: "p = (r, s')" by (cases p)
  from Inr p have run: "createGroup_try odm uploadImage ctx s input = Inr (r, s')" by simp
  have "admins_subset s'"
  proof (rule createGroup_try_Inr[OF run])
    fix u creator grp
    assume c: "castObjectId odm (user_id u) = Some creator"
      and ms: "map (castObjectId odm) (new_Set (user_id u # in_members input))
                = map Some (members grp)"
      and ad: "admins grp = [creator]"
      and s': "s' = s\<lparr>groups := groups s @ [grp]\<rparr>"
    have "user_id u \<in> set (new_Set (user_id u # in_members input))"
      by (simp add: set_new_Set)
    then have "castObjectId odm (user_id u)
        \<in> set (map (castObjectId odm) (new_Set (user_id u # in_members input)))" by simp
    with c ms have "creator \<in> set (members grp)" by auto
    with ad assms s' show "admins_subset s'" by (auto simp: admins_subset_def)
  qed
  with Inr p show ?thesis by (simp add: createGroup_def)
qed

lemma sendGroupMessage_admins_subset:
  "admins_subset s \<Longrightarrow> admins_subset (snd (sendGroupMessage odm ctx s g c t m r))"
  by (fastforce simp: sendGroupMessage_def sendGroupMessage_try_def admins_subset_def Let_def
      split: option.splits)

lemma addGroupMembers_admins_subset:
  assumes "admins_subset s"
  shows "admins_subset (snd (addGroupMembers ctx s g ms))"
proof (cases "addGroupMembers_try ctx s g ms")
  case (Inl msg)
  with assms show ?thesis by (simp add: addGroupMembers_def)
next
  case (Inr p)
  then obtain u grp where grp: "findGroupById g (groups s) = Some grp"
    and p: "snd p = s\<lparr>groups := saveGroup (grp\<lparr>members := members grp @ filter (\<lambda>i. i \<notin> set (members grp)) ms\<rparr>) (groups s)\<rparr>"
    by (auto simp: addGroupMembers_try_def Let_def split: option.splits if_splits)
  from admins_subset_found[OF assms grp]
  have "admins_subset (snd p)" unfolding p
    by (intro admins_subset_saveGroup[OF assms]) auto
  with Inr show ?thesis by (cases p) (simp add: addGroupMembers_def)
qed

lemma removeGroupMember_admins_subset:
  assumes "admins_subset s"
  shows "admins_subset (snd (removeGroupMember ctx s g m))"
proof (cases "removeGroupMember_try ctx s g m")
  case (Inl msg)
  with assms show ?thesis by (simp add: removeGroupMember_def)
next
  case (Inr p)
  then obtain grp where grp: "findGroupById g (groups s) = Some grp"
    and p: "snd p = s\<lparr>groups := saveGroup (grp\<lparr>members := filter (\<lambda>i. i \<noteq> m) (members grp),
                         admins := filter (\<lambda>i. i \<noteq> m) (admins grp)\<rparr>) (groups s)\<rparr>"
    by (auto simp: removeGroupMember_try_def Let_def split: option.splits if_splits)
  from admins_subset_found[OF assms grp]
  have "admins_subset (snd p)" unfolding p
    by (intro admins_subset_saveGroup[OF assms]) auto
  with Inr show ?thesis by (cases p) (simp add: removeGroupMember_def)
qed

lemma leaveGroup_admins_subset:
  assumes "admins_subset s"
  shows "admins_subset (snd (leaveGroup ctx s g))"
proof (cases "leaveGroup_try ctx s g")
  case (Inl msg)
  with assms show ?thesis by (simp add: leaveGroup_def)
next
  case (Inr p)
  then obtain grp u where u: "user ctx = Some u" and grp: "findGroupById g (groups s) = Some grp"
    and p: "snd p = s\<lparr>groups := saveGroup (grp\<lparr>members := filter (\<lambda>i. i \<noteq> user_id u) (members grp),
                         admins := filter (\<lambda>i. i \<noteq> user_id u) (admins grp)\<rparr>) (groups s)\<rparr>"
    by (auto simp: leaveGroup_try_def Let_def split: option.splits if_splits)
  from admins_subset_found[OF assms grp]
  have "admins_subset (snd p)" unfolding p
    by (intro admins_subset_saveGroup[OF assms]) auto
  with Inr show ?thesis by (cases p) (simp add: leaveGroup_def)
qed

lemma makeGroupAdmin_admins_subset:
  assumes "admins_subset s"
  shows "admins_subset (snd (makeGroupAdmin ctx s g m))"
proof (cases "makeGroupAdmin_try ctx s g m")
  case (Inl msg)
  with assms show ?thesis by (simp add: makeGroupAdmin_def)
next
  case (Inr p)
  then obtain grp where grp: "findGroupById g (groups s) = Some grp" and m: "m \<in> set (members grp)"
    and p: "snd p = s \<or> snd p = s\<lparr>groups := saveGroup (grp\<lparr>admins := admins grp @ [m]\<rparr>) (groups s)\<rparr>"
    by (auto simp: makeGroupAdmin_try_def Let_def split: option.splits if_splits)
  from admins_subset_found[OF assms grp] m
  have "admins_subset (s\<lparr>groups := saveGroup (grp\<lparr>admins := admins grp @ [m]\<rparr>) (groups s)\<rparr>)"
    by (intro admins_subset_saveGroup[OF assms]) auto
  with p assms have "admins_subset (snd p)" by auto
  with Inr show ?thesis by (cases p) (simp add: makeGroupAdmin_def)
qed

lemma updateGroup_admins_subset:
  "admins_subset s \<Longrightarrow> admins_subset (snd (updateGroup ctx s g n d i))"
  by (fastforce simp: updateGroup_def updateGroup_try_def admins_subset_def Let_def
      split: option.splits)

lemma deleteGroup_admins_subset:
  "admins_subset s \<Longrightarrow> admins_subset (snd (deleteGroup ctx s g))"
  by (auto simp: deleteGroup_def deleteGroup_try_def admins_subset_def Let_def
      split: option.splits)

lemma markGroupMessageAsRead_groups:
  "groups (snd (markGroupMessageAsRead ctx s i)) = groups s"
  by (auto simp: markGroupMessageAsRead_def markGroupMessageAsRead_try_def Let_def
      split: option.splits)

text \<open>
  Claim C4. From a store in which the admins of every group are among its members, every
  request to the \<^verbatim>\<open>Mutation\<close> map (\<^verbatim>\<open>createGroup\<close>, \<^verbatim>\<open>addGroupMembers\<close>,
  \<^verbatim>\<open>removeGroupMember\<close>, \<^verbatim>\<open>leaveGroup\<close>, \<^verbatim>\<open>makeGroupAdmin\<close>, \<^verbatim>\<open>updateGroup\<close>,
  \<^verbatim>\<open>deleteGroup\<close>, \<^verbatim>\<open>sendGroupMessage\<close>, and \<^verbatim>\<open>markGroupMessageAsRead\<close> as well),
  whether it succeeds or fails, leaves a store in which the admins of every group that
  still exists are among its members.
\<close>

theorem admins_subset_preserved:
  "admins_subset s \<Longrightarrow> admins_subset (Mutation odm uploadImage ctx s m)"
proof (cases m)
  case (MarkGroupMessageAsRead i)
  assume "admins_subset s"
  then show ?thesis
    using markGroupMessageAsRead_groups[of ctx s i]
    by (simp add: MarkGroupMessageAsRead admins_subset_def)
qed (simp_all add: createGroup_admins_subset sendGroupMessage_admins_subset
    addGroupMembers_admins_subset removeGroupMember_admins_subset leaveGroup_admins_subset
    makeGroupAdmin_admins_subset updateGroup_admins_subset deleteGroup_admins_subset)


theorem admins_subset_preserved_witness:
  "admins_subset team_store
   \<and> admins_subset (Mutation spelled_ids (\<lambda>img. None) (acting_as ''u1'' 60) team_store
        (MakeGroupAdmin 1 ''u2''))
   \<and> groups (Mutation spelled_ids (\<lambda>img. None) (acting_as ''u1'' 60) team_store
        (MakeGroupAdmin 1 ''u2'')) = [team\<lparr>admins := [''u1'', ''u2'']\<rparr>]"
proof -
  have a: "admins_subset team_store"
    by (simp add: admins_subset_def example_defs)
  have b: "groups (Mutation spelled_ids (\<lambda>img. None) (acting_as ''u1'' 60) team_store
        (MakeGroupAdmin 1 ''u2'')) = [team\<lparr>admins := [''u1'', ''u2'']\<rparr>]"
    by (simp add: makeGroupAdmin_def makeGroupAdmin_try_def findGroupById_def saveGroup_def
        example_defs)
  from a b admins_subset_preserved [OF a, where odm = spelled_ids and uploadImage = "\<lambda>img. None"
      and ctx = "acting_as ''u1'' 60" and m = "MakeGroupAdmin 1 ''u2''"]
  show ?thesis by simp
qed

section \<open>Failures: returned or thrown\<close>

lemma addGroupMembers_result:
  "\<exists>r. fst (addGroupMembers ctx s g ms) = Returned r
     \<and> (success r \<longleftrightarrow> (\<exists>u grp. user ctx = Some u \<and> findGroupById g (groups s) = Some grp
            \<and> user_id u \<in> set (admins grp)
            \<and> int (length (members grp)) + int (length ms) \<le> maxMembers grp))
     \<and> (success r \<or> (r = failure (message r) \<and> snd (addGroupMembers ctx s g ms) = s))"
  by (auto simp: addGroupMembers_def addGroupMembers_try_def failure_def Let_def
      split: option.splits)

lemma removeGroupMember_result:
  "\<exists>r. fst (removeGroupMember ctx s g m) = Returned r
     \<and> (success r \<longleftrightarrow> (\<exists>u grp. user ctx = Some u \<and> findGroupById g (groups s) = Some grp
            \<and> (user_id u \<in> set (admins grp) \<or> user_id u = m) \<and> createdBy grp \<noteq> m))
     \<and> (success r \<or> (r = failure (message r) \<and> snd (removeGroupMember ctx s g m) = s))"
  by (auto simp: removeGroupMember_def removeGroupMember_try_def failure_def Let_def
      split: option.splits)

lemma leaveGroup_result:
  "\<exists>r. fst (leaveGroup ctx s g) = Returned r
     \<and> (success r \<longleftrightarrow> (\<exists>u grp. user ctx = Some u \<and> findGroupById g (groups s) = Some grp
            \<and> createdBy grp \<noteq> user_id u))
     \<and> (success r \<or> (r = failure (message r) \<and> snd (leaveGroup ctx s g) = s))"
  by (auto simp: leaveGroup_def leaveGroup_try_def failure_def Let_def
      split: option.splits)

lemma makeGroupAdmin_result:
  "\<exists>r. fst (makeGroupAdmin ctx s g m) = Returned r
     \<and> (success r \<longleftrightarrow> (\<exists>u grp. user ctx = Some u \<and> findGroupById g (groups s) = Some grp
            \<and> user_id u \<in> set (admins grp) \<and> m \<in> set (members grp)))
     \<and> (success r \<or> (r = failure (message r) \<and> snd (makeGroupAdmin ctx s g m) = s))"
  by (auto simp: makeGroupAdmin_def makeGroupAdmin_try_def failure_def Let_def
      split: option.splits)

lemma deleteGroup_result:
  "\<exists>r. fst (deleteGroup ctx s g) = Returned r
     \<and> (success r \<longleftrightarrow> (\<exists>u grp. user ctx = Some u \<and> findGroupById g (groups s) = Some grp
            \<and> createdBy grp = user_id u))
     \<and> (success r \<or> (r = failure (message r) \<and> snd (deleteGroup ctx s g) = s))"
  by (auto simp: deleteGroup_def deleteGroup_try_def failure_def Let_def
      split: option.splits)

lemma updateGroup_throws:
  "\<not> (\<exists>u grp. user ctx = Some u \<and> findGroupById g (groups s) = Some grp
         \<and> user_id u \<in> set (admins grp))
   \<Longrightarrow> \<exists>msg. updateGroup ctx s g n d i = (Thrown (''Error updating group: '' @ msg), s)"
  by (auto simp: updateGroup_def updateGroup_try_def split: option.splits)

lemma sendGroupMessage_throws:
  "\<not> (\<exists>u grp. user ctx = Some u \<and> findGroupById g (groups s) = Some grp
         \<and> user_id u \<in> set (members grp))
   \<Longrightarrow> \<exists>msg. sendGroupMessage odm ctx s g c t md r
          = (Thrown (''Error sending group message: '' @ msg), s)"
  by (auto simp: sendGroupMessage_def sendGroupMessage_try_def split: option.splits)

lemma markGroupMessageAsRead_throws:
  "user ctx = None \<or> findMessageById i (groupMessages s) = None
   \<Longrightarrow> \<exists>msg. markGroupMessageAsRead ctx s i
          = (Thrown (''Error marking message as read: '' @ msg), s)"
  by (auto simp: markGroupMessageAsRead_def markGroupMessageAsRead_try_def split: option.splits)


text \<open>
  Claim C1, amended. \<^verbatim>\<open>addGroupMembers\<close>, \<^verbatim>\<open>removeGroupMember\<close>, \<^verbatim>\<open>leaveGroup\<close>,
  \<^verbatim>\<open>makeGroupAdmin\<close> and \<^verbatim>\<open>deleteGroup\<close> never throw: they return a response, which
  reports success only when the caller is authenticated, the group exists and the
  caller passes the authorization check of the operation (for the last four, exactly
  when this and the business rule of the operation hold), and which is otherwise
  \<^verbatim>\<open>{success: false, message, group: null}\<close> with the store left as it was.
  \<^verbatim>\<open>updateGroup\<close>, \<^verbatim>\<open>sendGroupMessage\<close> and \<^verbatim>\<open>markGroupMessageAsRead\<close> return the
  document itself and, as the creation and query paths do, propagate a failure by
  throwing an error whose message carries the operation's prefix.
\<close>

theorem failures_returned_or_thrown:
  "(\<exists>r. fst (addGroupMembers ctx s g ms) = Returned r
     \<and> (success r \<longrightarrow> (\<exists>u grp. user ctx = Some u \<and> findGroupById g (groups s) = Some grp
            \<and> user_id u \<in> set (admins grp)))
     \<and> (success r \<or> (r = failure (message r) \<and> snd (addGroupMembers ctx s g ms) = s)))
 \<and> (\<exists>r. fst (removeGroupMember ctx s g m) = Returned r
     \<and> (success r \<longleftrightarrow> (\<exists>u grp. user ctx = Some u \<and> findGroupById g (groups s) = Some grp
            \<and> (user_id u \<in> set (admins grp) \<or> user_id u = m) \<and> createdBy grp \<noteq> m))
     \<and> (success r \<or> (r = failure (message r) \<and> snd (removeGroupMember ctx s g m) = s)))
 \<and> (\<exists>r. fst (leaveGroup ctx s g) = Returned r
     \<and> (success r \<longleftrightarrow> (\<exists>u grp. user ctx = Some u \<and> findGroupById g (groups s) = Some grp
            \<and> createdBy grp \<noteq> user_id u))
     \<and> (success r \<or> (r = failure (message r) \<and> snd (leaveGroup ctx s g) = s)))
 \<and> (\<exists>r. fst (makeGroupAdmin ctx s g m) = Returned r
     \<and> (success r \<longleftrightarrow> (\<exists>u grp. user ctx = Some u \<and> findGroupById g (groups s) = Some grp
            \<and> user_id u \<in> set (admins grp) \<and> m \<in> set (members grp)))
     \<and> (success r \<or> (r = failure (message r) \<and> snd (makeGroupAdmin ctx s g m) = s)))
 \<and> (\<exists>r. fst (deleteGroup ctx s g) = Returned r
     \<and> (success r \<longleftrightarrow> (\<exists>u grp. user ctx = Some u \<and> findGroupById g (groups s) = Some grp
            \<and> createdBy grp = user_id u))
     \<and> (success r \<or> (r = failure (message r) \<and> snd (deleteGroup ctx s g) = s)))
 \<and> (\<not> (\<exists>u grp. user ctx = Some u \<and> findGroupById g (groups s) = Some grp
            \<and> user_id u \<in> set (admins grp))
      \<longrightarrow> (\<exists>msg. updateGroup ctx s g n d i = (Thrown (''Error updating group: '' @ msg), s)))
 \<and> (\<not> (\<exists>u grp. user ctx = Some u \<and> findGroupById g (groups s) = Some grp
            \<and> user_id u \<in> set (members grp))
      \<longrightarrow> (\<exists>msg. sendGroupMessage odm ctx s g c t md r
            = (Thrown (''Error sending group message: '' @ msg), s)))
 \<and> (user ctx = None \<or> findMessageById k (groupMessages s) = None
      \<longrightarrow> (\<exists>msg. markGroupMessageAsRead ctx s k
            = (Thrown (''Error marking message as read: '' @ msg), s)))"
proof -
  from addGroupMembers_result [of ctx s g ms]
  have add: "\<exists>r. fst (addGroupMembers ctx s g ms) = Returned r
     \<and> (success r \<longrightarrow> (\<exists>u grp. user ctx = Some u \<and> findGroupById g (groups s) = Some grp
            \<and> user_id u \<in> set (admins grp)))
     \<and> (success r \<or> (r = failure (message r) \<and> snd (addGroupMembers ctx s g ms) = s))"
    by blast
  show ?thesis
    using add removeGroupMember_result [of ctx s g m]
      leaveGroup_result [of ctx s g] makeGroupAdmin_result [of ctx s g m]
      deleteGroup_result [of ctx s g] updateGroup_throws [of ctx g s n d i]
      sendGroupMessage_throws [of ctx g s odm c t md r] markGroupMessageAsRead_throws [of ctx k s]
    by (intro conjI impI)
qed


theorem updateGroup_throws_counterexample:
  "updateGroup (acting_as ''u2'' 60) team_store 1 (Some (utf16 ''Crew'')) None None
     = (Thrown ''Error updating group: Only admins can update group'', team_store)
   \<and> sendGroupMessage spelled_ids (acting_as ''u3'' 60) team_store 1 (Some (utf16 ''hi'')) None None None
     = (Thrown ''Error sending group message: You are not a member of this group'', team_store)
   \<and> markGroupMessageAsRead (acting_as ''u2'' 60) team_store 99
     = (Thrown ''Error marking message as read: Message not found'', team_store)
   \<and> \<not> (\<exists>r. fst (updateGroup (acting_as ''u2'' 60) team_store 1 (Some (utf16 ''Crew'')) None None)
            = Returned r)"
  by (simp add: updateGroup_def updateGroup_try_def sendGroupMessage_def sendGroupMessage_try_def
      markGroupMessageAsRead_def markGroupMessageAsRead_try_def findGroupById_def
      findMessageById_def example_defs)

theorem failures_returned_or_thrown_witness:
  "addGroupMembers (acting_as ''u2'' 60) team_store 1 [''u3'']
     = (Returned (failure ''Only admins can add members''), team_store)
   \<and> \<not> (\<exists>u grp. user (acting_as ''u2'' 60) = Some u
          \<and> findGroupById 1 (groups team_store) = Some grp \<and> user_id u \<in> set (admins grp))
   \<and> (\<exists>msg. updateGroup (acting_as ''u2'' 60) team_store 1 (Some (utf16 ''Crew'')) None None
          = (Thrown (''Error updating group: '' @ msg), team_store))
   \<and> \<not> (\<exists>u grp. user (acting_as ''u3'' 60) = Some u
          \<and> findGroupById 1 (groups team_store) = Some grp \<and> user_id u \<in> set (members grp))
   \<and> (\<exists>msg. sendGroupMessage spelled_ids (acting_as ''u3'' 60) team_store 1 (Some (utf16 ''hi'')) None None None
          = (Thrown (''Error sending group message: '' @ msg), team_store))
   \<and> findMessageById 99 (groupMessages team_store) = None
   \<and> (\<exists>msg. markGroupMessageAsRead (acting_as ''u2'' 60) team_store 99
          = (Thrown (''Error marking message as read: '' @ msg), team_store))"
proof -
  have a: "addGroupMembers (acting_as ''u2'' 60) team_store 1 [''u3'']
     = (Returned (failure ''Only admins can add members''), team_store)"
    by (simp add: addGroupMembers_def addGroupMembers_try_def findGroupById_def example_defs)
  have b: "\<not> (\<exists>u grp. user (acting_as ''u2'' 60) = Some u
          \<and> findGroupById 1 (groups team_store) = Some grp \<and> user_id u \<in> set (admins grp))"
    by (auto simp: findGroupById_def example_defs)
  have c: "\<not> (\<exists>u grp. user (acting_as ''u3'' 60) = Some u
          \<and> findGroupById 1 (groups team_store) = Some grp \<and> user_id u \<in> set (members grp))"
    by (auto simp: findGroupById_def example_defs)
  have d: "findMessageById 99 (groupMessages team_store) = None"
    by (simp add: findMessageById_def example_defs)
  note t1 = failures_returned_or_thrown
    [where ctx = "acting_as ''u2'' 60" and s = team_store and g = 1 and n = "Some (utf16 ''Crew'')"
       and d = None and i = None and k = 99]
  note t2 = failures_returned_or_thrown
    [where ctx = "acting_as ''u3'' 60" and s = team_store and g = 1 and c = "Some (utf16 ''hi'')"
       and t = None and md = None and r = None]
  from t1 b have e: "\<exists>msg. updateGroup (acting_as ''u2'' 60) team_store 1 (Some (utf16 ''Crew'')) None None
          = (Thrown (''Error updating group: '' @ msg), team_store)" by blast
  from t2 c have f: "\<exists>msg. sendGroupMessage spelled_ids (acting_as ''u3'' 60) team_store 1 (Some (utf16 ''hi'')) None None None
          = (Thrown (''Error sending group message: '' @ msg), team_store)" by blast
  from t1 d have g: "\<exists>msg. markGroupMessageAsRead (acting_as ''u2'' 60) team_store 99
          = (Thrown (''Error marking message as read: '' @ msg), team_store)" by blast
  from a b c d e f g show ?thesis by (intro conjI)
qed

section \<open>Membership changes\<close>

lemma removeGroupMember_creator:
  assumes "user ctx = Some u" and "findGroupById g (groups s) = Some grp"
    and "createdBy grp = memberId"
  shows "removeGroupMember ctx s g memberId =
           (Returned (failure (if user_id u \<in> set (admins grp) \<or> user_id u = memberId
                               then ''Cannot remove group creator''
                               else ''Only admins can remove members'')), s)"
  using assms by (simp add: removeGroupMember_def removeGroupMember_try_def)

lemma leaveGroup_creator:
  assumes "user ctx = Some u" and "findGroupById g (groups s) = Some grp"
    and "createdBy grp = user_id u"
  shows "leaveGroup ctx s g =
           (Returned (failure
              ''Group creator cannot leave. Transfer ownership first or delete the group.''), s)"
  using assms by (simp add: leaveGroup_def leaveGroup_try_def)

lemma removeGroupMember_success:
  assumes u: "user ctx = Some u" and grp: "findGroupById g (groups s) = Some grp"
    and r: "fst (removeGroupMember ctx s g memberId) = Returned r" and ok: "success r"
  shows "(user_id u \<in> set (admins grp) \<or> user_id u = memberId)
       \<and> createdBy grp \<noteq> memberId
       \<and> (\<exists>grp'. group r = Some grp'
             \<and> findGroupById g (groups (snd (removeGroupMember ctx s g memberId))) = Some grp'
             \<and> members grp' = filter (\<lambda>i. i \<noteq> memberId) (members grp)
             \<and> admins grp' = filter (\<lambda>i. i \<noteq> memberId) (admins grp)
             \<and> memberId \<notin> set (members grp') \<and> memberId \<notin> set (admins grp'))"
proof -
  let ?grp' = "grp\<lparr>members := filter (\<lambda>i. i \<noteq> memberId) (members grp),
                     admins := filter (\<lambda>i. i \<noteq> memberId) (admins grp)\<rparr>"
  from u grp r ok have auth: "user_id u \<in> set (admins grp) \<or> user_id u = memberId"
    and cr: "createdBy grp \<noteq> memberId"
    by (auto simp: removeGroupMember_def removeGroupMember_try_def failure_def
        split: if_splits)
  from findGroupById_Some[OF grp] have "gid ?grp' = g" by simp
  from findGroupById_saveGroup[OF grp this]
  have f: "findGroupById g (saveGroup ?grp' (groups s)) = Some ?grp'" .
  from u grp auth cr
  have run: "removeGroupMember ctx s g memberId =
      (Returned \<lparr>success = True, message = ''Member removed successfully'', group = Some ?grp'\<rparr>,
       s\<lparr>groups := saveGroup ?grp' (groups s)\<rparr>)"
    by (auto simp: removeGroupMember_def removeGroupMember_try_def Let_def f)
  with r have "group r = Some ?grp'" by auto
  moreover from run f
  have "findGroupById g (groups (snd (removeGroupMember ctx s g memberId))) = Some ?grp'"
    by simp
  ultimately show ?thesis using auth cr by simp
qed

text \<open>
  Claim C5, amended. For an authenticated actor and an existing group,
  \<^verbatim>\<open>removeGroupMember\<close> aimed at the creator and \<^verbatim>\<open>leaveGroup\<close> by the creator fail and
  leave the store as it was. \<^verbatim>\<open>removeGroupMember\<close> checks the actor first: an actor who
  is an admin, or the creator themself, is told that the creator cannot be removed; any
  other actor is told that only admins can remove members. \<^verbatim>\<open>removeGroupMember\<close>
  succeeds only when the actor is an admin or is the member to remove, and then the
  saved group has the member filtered out of both the members and the admins.
\<close>

theorem creator_is_protected:
  assumes "user ctx = Some u" and "findGroupById g (groups s) = Some grp"
  shows "(createdBy grp = memberId \<longrightarrow>
            removeGroupMember ctx s g memberId =
              (Returned (failure (if user_id u \<in> set (admins grp) \<or> user_id u = memberId
                                  then ''Cannot remove group creator''
                                  else ''Only admins can remove members'')), s))
       \<and> (createdBy grp = user_id u \<longrightarrow>
            leaveGroup ctx s g =
              (Returned (failure
                 ''Group creator cannot leave. Transfer ownership first or delete the group.''), s))
       \<and> (\<forall>r. fst (removeGroupMember ctx s g memberId) = Returned r \<and> success r \<longrightarrow>
             (user_id u \<in> set (admins grp) \<or> user_id u = memberId)
           \<and> createdBy grp \<noteq> memberId
           \<and> (\<exists>grp'. group r = Some grp'
                \<and> findGroupById g (groups (snd (removeGroupMember ctx s g memberId))) = Some grp'
                \<and> members grp' = filter (\<lambda>i. i \<noteq> memberId) (members grp)
                \<and> admins grp' = filter (\<lambda>i. i \<noteq> memberId) (admins grp)
                \<and> memberId \<notin> set (members grp') \<and> memberId \<notin> set (admins grp')))"
proof (intro conjI impI allI)
  assume "createdBy grp = memberId"
  with assms show "removeGroupMember ctx s g memberId =
              (Returned (failure (if user_id u \<in> set (admins grp) \<or> user_id u = memberId
                                  then ''Cannot remove group creator''
                                  else ''Only admins can remove members'')), s)"
    by (rule removeGroupMember_creator)
next
  assume "createdBy grp = user_id u"
  with assms show "leaveGroup ctx s g =
              (Returned (failure
                 ''Group creator cannot leave. Transfer ownership first or delete the group.''), s)"
    by (rule leaveGroup_creator)
next
  fix r
  assume "fst (removeGroupMember ctx s g memberId) = Returned r \<and> success r"
  then have "fst (removeGroupMember ctx s g memberId) = Returned r" "success r" by simp_all
  from removeGroupMember_success[OF assms this]
  show "user_id u \<in> set (admins grp) \<or> user_id u = memberId"
    and "createdBy grp \<noteq> memberId"
    and "\<exists>grp'. group r = Some grp'
                \<and> findGroupById g (groups (snd (removeGroupMember ctx s g memberId))) = Some grp'
                \<and> members grp' = filter (\<lambda>i. i \<noteq> memberId) (members grp)
                \<and> admins grp' = filter (\<lambda>i. i \<noteq> memberId) (admins grp)
                \<and> memberId \<notin> set (members grp') \<and> memberId \<notin> set (admins grp')"
    by simp_all
qed

theorem creator_is_protected_witness:
  "user (acting_as ''u1'' 60) = Some \<lparr>user_id = ''u1''\<rparr>
   \<and> findGroupById 1 (groups team_store) = Some team
   \<and> createdBy team = ''u1''
   \<and> removeGroupMember (acting_as ''u1'' 60) team_store 1 ''u1''
       = (Returned (failure ''Cannot remove group creator''), team_store)
   \<and> leaveGroup (acting_as ''u1'' 60) team_store 1
       = (Returned (failure
            ''Group creator cannot leave. Transfer ownership first or delete the group.''),
          team_store)
   \<and> fst (removeGroupMember (acting_as ''u1'' 60) team_store 1 ''u2'')
       = Returned \<lparr>success = True, message = ''Member removed successfully'',
                   group = Some (team\<lparr>members := [''u1'']\<rparr>)\<rparr>"
proof -
  have a: "user (acting_as ''u1'' 60) = Some \<lparr>user_id = ''u1''\<rparr>"
    by (simp add: example_defs)
  have b: "findGroupById 1 (groups team_store) = Some team"
    by (simp add: findGroupById_def example_defs)
  have c: "createdBy team = ''u1''" "admins team = [''u1'']"
    by (simp_all add: example_defs)
  have d: "fst (removeGroupMember (acting_as ''u1'' 60) team_store 1 ''u2'')
       = Returned \<lparr>success = True, message = ''Member removed successfully'',
                   group = Some (team\<lparr>members := [''u1'']\<rparr>)\<rparr>"
    by (simp add: removeGroupMember_def removeGroupMember_try_def findGroupById_def
        saveGroup_def Let_def example_defs)
  from creator_is_protected [OF a b, of "''u1''"] a b c d show ?thesis by simp
qed

theorem removeGroupMember_creator_counterexample:
  "createdBy team = ''u1'' \<and> findGroupById 1 (groups team_store) = Some team
   \<and> removeGroupMember (acting_as ''u2'' 60) team_store 1 ''u1''
       = (Returned (failure ''Only admins can remove members''), team_store)
   \<and> removeGroupMember (acting_as ''u2'' 60) team_store 1 ''u1''
       \<noteq> (Returned (failure ''Cannot remove group creator''), team_store)"
  by (simp add: removeGroupMember_def removeGroupMember_try_def findGroupById_def failure_def
      example_defs)

lemma addGroupMembers_success:
  assumes u: "user ctx = Some u" and grp: "findGroupById g (groups s) = Some grp"
    and adm: "user_id u \<in> set (admins grp)"
    and cap: "int (length (members grp)) + int (length ms) \<le> maxMembers grp"
  shows "\<exists>grp' txt. addGroupMembers ctx s g ms =
            (Returned \<lparr>success = True, message = txt, group = Some grp'\<rparr>,
             s\<lparr>groups := saveGroup grp' (groups s)\<rparr>)
         \<and> members grp' = members grp @ filter (\<lambda>i. i \<notin> set (members grp)) ms
         \<and> set (members grp') = set (members grp) \<union> set ms
         \<and> admins grp' = admins grp
         \<and> int (length (members grp')) \<le> maxMembers grp'"
proof -
  let ?new = "filter (\<lambda>i. i \<notin> set (members grp)) ms"
  let ?grp' = "grp\<lparr>members := members grp @ ?new\<rparr>"
  from findGroupById_Some[OF grp] have "gid ?grp' = g" by simp
  from findGroupById_saveGroup[OF grp this]
  have f: "findGroupById g (saveGroup ?grp' (groups s)) = Some ?grp'" .
  from u grp adm cap
  have run: "addGroupMembers ctx s g ms =
      (Returned \<lparr>success = True,
                 message = show_nat (length ?new) @ '' members added successfully'',
                 group = Some ?grp'\<rparr>,
       s\<lparr>groups := saveGroup ?grp' (groups s)\<rparr>)"
    by (simp add: addGroupMembers_def addGroupMembers_try_def Let_def f)
  have "int (length ?new) \<le> int (length ms)" by simp
  with cap have "int (length (members grp)) + int (length ?new) \<le> maxMembers grp" by linarith
  then have "int (length (members ?grp')) \<le> maxMembers ?grp'" by simp
  moreover have "set (members ?grp') = set (members grp) \<union> set ms" by auto
  ultimately show ?thesis using run by (intro exI[of _ ?grp'] exI) simp
qed

text \<open>
  Claim C2. \<^verbatim>\<open>addGroupMembers\<close> by an admin appends the identifiers not yet among
  the members and keeps the member count within \<^verbatim>\<open>maxMembers\<close> (the lemma above), but
  its capacity check adds the length of the whole request to the member count before the
  members already present are filtered out. So it refuses requests whose resulting
  member count is within the limit: on "Team" (\<open>u1\<close> and \<open>u2\<close>, limit 3), the admin
  \<open>u1\<close> adding \<open>u2\<close> and \<open>u3\<close> would bring the group to three members, and the code
  answers that the limit of 3 would be exceeded.
\<close>

theorem addGroupMembers_counts_before_deduplication:
  "findGroupById 1 (groups team_store) = Some team
   \<and> ''u1'' \<in> set (admins team)
   \<and> maxMembers team = 3
   \<and> members team @ filter (\<lambda>i. i \<notin> set (members team)) [''u2'', ''u3''] = [''u1'', ''u2'', ''u3'']
   \<and> addGroupMembers (acting_as ''u1'' 60) team_store 1 [''u2'', ''u3'']
       = (Returned (failure ''Cannot exceed maximum members limit of 3''), team_store)"
  by (simp add: addGroupMembers_def addGroupMembers_try_def findGroupById_def show_int_def
      show_nat.simps digit_char_def example_defs)

section \<open>Creating groups and sending messages\<close>

lemma findGroupById_append_fresh:
  "\<forall>h \<in> set gs. gid h \<noteq> i \<Longrightarrow> gid grp = i \<Longrightarrow> findGroupById i (gs @ [grp]) = Some grp"
  by (induction gs) (auto simp: findGroupById_def)

lemma findMessageById_append_fresh:
  "\<forall>h \<in> set ms. mid h \<noteq> i \<Longrightarrow> mid m = i \<Longrightarrow> findMessageById i (ms @ [m]) = Some m"
  by (induction ms) (auto simp: findMessageById_def)

lemma fresh_gid: "\<forall>h \<in> set gs. gid h \<noteq> fresh_id (map gid gs)"
  using fresh_id_notin[of "map gid gs"] by (auto simp: image_iff)

lemma fresh_mid: "\<forall>h \<in> set ms. mid h \<noteq> fresh_id (map mid ms)"
  using fresh_id_notin[of "map mid ms"] by (auto simp: image_iff)

lemma createGroup_invalid:
  assumes u: "user ctx = Some u" "user_id u \<noteq> []"
  shows "(trim (in_name input) = [] \<longrightarrow>
            createGroup odm uploadImage ctx s input
              = (Thrown ''Error creating group: Group name is required'', s))
       \<and> (trim (in_name input) \<noteq> [] \<and> in_members input = [] \<longrightarrow>
            createGroup odm uploadImage ctx s input
              = (Thrown ''Error creating group: At least one member is required'', s))
       \<and> (trim (in_name input) \<noteq> [] \<and> in_members input \<noteq> []
            \<and> (\<exists>i \<in> set (in_members input). \<not> isValid odm i) \<longrightarrow>
            createGroup odm uploadImage ctx s input
              = (Thrown ''Error creating group: Invalid member IDs provided'', s))"
proof (intro conjI impI)
  assume "trim (in_name input) = []"
  with u show "createGroup odm uploadImage ctx s input
              = (Thrown ''Error creating group: Group name is required'', s)"
    by (simp add: createGroup_def createGroup_try_def)
next
  assume a: "trim (in_name input) \<noteq> [] \<and> in_members input = []"
  then have "in_name input \<noteq> []" by (auto simp: trim_Nil)
  with a u show "createGroup odm uploadImage ctx s input
              = (Thrown ''Error creating group: At least one member is required'', s)"
    by (simp add: createGroup_def createGroup_try_def)
next
  assume a: "trim (in_name input) \<noteq> [] \<and> in_members input \<noteq> []
            \<and> (\<exists>i \<in> set (in_members input). \<not> isValid odm i)"
  then have "in_name input \<noteq> []" by (auto simp: trim_Nil)
  moreover from a have "filter (\<lambda>i. \<not> isValid odm i) (in_members input) \<noteq> []"
    by (simp add: filter_empty_conv)
  ultimately show "createGroup odm uploadImage ctx s input
              = (Thrown ''Error creating group: Invalid member IDs provided'', s)"
    using a u by (simp add: createGroup_def createGroup_try_def)
qed

lemma map_Some_ex: "\<forall>x \<in> set xs. f x \<noteq> None \<Longrightarrow> \<exists>ys. map f xs = map Some ys"
proof (induction xs)
  case Nil
  show ?case by simp
next
  case (Cons x xs)
  then obtain y ys where "f x = Some y" "map f xs = map Some ys" by auto
  then have "map f (x # xs) = map Some (y # ys)" by simp
  then show ?case ..
qed

lemma createGroup_valid:
  assumes u: "user ctx = Some u" "user_id u \<noteq> []"
    and n: "trim (in_name input) \<noteq> []" and m: "in_members input \<noteq> []"
    and v: "\<forall>i \<in> set (in_members input). isValid odm i"
    and up: "\<forall>img. in_groupImage input = Some img \<longrightarrow> uploadImage img \<noteq> None"
    and c: "\<forall>i \<in> insert (user_id u) (set (in_members input)). castObjectId odm i \<noteq> None"
  shows "\<exists>grp. createGroup odm uploadImage ctx s input
             = (Returned (Some (populate odm grp)), s\<lparr>groups := groups s @ [grp]\<rparr>)
          \<and> map Some (members grp)
              = map (castObjectId odm) (new_Set (user_id u # in_members input))
          \<and> Some ` set (members grp)
              = castObjectId odm ` insert (user_id u) (set (in_members input))
          \<and> (inj_on (castObjectId odm) (insert (user_id u) (set (in_members input)))
                \<longrightarrow> distinct (members grp))
          \<and> map Some (admins grp) = [castObjectId odm (user_id u)]
          \<and> Some (createdBy grp) = castObjectId odm (user_id u)
          \<and> name grp = in_name input
          \<and> gid grp \<notin> gid ` set (groups s)"
proof -
  let ?ms = "new_Set (user_id u # in_members input)"
  obtain url where url: "(case in_groupImage input of None \<Rightarrow> Some [] | Some img \<Rightarrow> uploadImage img)
      = Some url"
    using up by (cases "in_groupImage input") auto
  from c obtain creator where cr: "castObjectId odm (user_id u) = Some creator" by auto
  from c have "\<forall>i \<in> set ?ms. castObjectId odm i \<noteq> None" by (simp add: set_new_Set)
  then obtain ids where ids: "map (castObjectId odm) ?ms = map Some ids"
    using map_Some_ex[of ?ms "castObjectId odm"] by blast
  then have th: "those (map (castObjectId odm) ?ms) = Some ids"
    by (simp add: those_map_Some)
  let ?grp = "\<lparr>gid = fresh_id (map gid (groups s)),
                name = in_name input,
                description = or_string (in_description input) [],
                groupImage = url,
                members = ids,
                admins = [creator],
                createdBy = creator,
                isPrivate = (case in_isPrivate input of None \<Rightarrow> False | Some b \<Rightarrow> b),
                maxMembers = (case in_maxMembers input of
                                None \<Rightarrow> 256
                              | Some n \<Rightarrow> if n = 0 then 256 else n),
                lastMessage = None,
                updatedAt = clock ctx\<rparr>"
  have f: "findGroupById (fresh_id (map gid (groups s))) (groups s @ [?grp]) = Some ?grp"
    by (rule findGroupById_append_fresh[OF fresh_gid]) simp
  from n have n': "in_name input \<noteq> []" by (auto simp: trim_Nil)
  from v have v': "filter (\<lambda>i. \<not> isValid odm i) (in_members input) = []"
    by (simp add: filter_empty_conv)
  have run: "createGroup odm uploadImage ctx s input
      = (Returned (Some (populate odm ?grp)), s\<lparr>groups := groups s @ [?grp]\<rparr>)"
    using u n n' m v' url cr th f
    by (simp add: createGroup_def createGroup_try_def Let_def)
  have fresh: "gid ?grp \<notin> gid ` set (groups s)"
    using fresh_gid[of "groups s"] by (auto simp: image_iff)
  have "set (map Some ids) = set (map (castObjectId odm) ?ms)" using ids by simp
  then have img: "Some ` set ids = castObjectId odm ` insert (user_id u) (set (in_members input))"
    by (simp add: set_new_Set)
  have dist: "inj_on (castObjectId odm) (insert (user_id u) (set (in_members input)))
      \<longrightarrow> distinct ids"
  proof
    assume "inj_on (castObjectId odm) (insert (user_id u) (set (in_members input)))"
    then have "inj_on (castObjectId odm) (set ?ms)" by (simp add: set_new_Set)
    with distinct_new_Set[of "user_id u # in_members input"]
    have "distinct (map (castObjectId odm) ?ms)" by (simp add: distinct_map)
    with ids have "distinct (map Some ids)" by simp
    then show "distinct ids" by (simp add: distinct_map)
  qed
  have g1: "map Some (members ?grp) = map (castObjectId odm) ?ms" using ids by simp
  have g2: "Some ` set (members ?grp)
      = castObjectId odm ` insert (user_id u) (set (in_members input))" using img by simp
  have g3: "inj_on (castObjectId odm) (insert (user_id u) (set (in_members input)))
      \<longrightarrow> distinct (members ?grp)" using dist by simp
  have g4: "map Some (admins ?grp) = [castObjectId odm (user_id u)]" using cr by simp
  have g5: "Some (createdBy ?grp) = castObjectId odm (user_id u)" using cr by simp
  have g6: "name ?grp = in_name input" by simp
  show ?thesis
    using run g1 g2 g3 g4 g5 g6 fresh by (intro exI[of _ ?grp] conjI)
qed


text \<open>
  Claim C6. \<^verbatim>\<open>createGroup\<close> throws a validation error when the name is empty after
  trimming, when the members list is empty, or when a supplied identifier is not a valid
  object id, and otherwise stores a group whose only admin and whose \<^verbatim>\<open>createdBy\<close> is
  the creator (the lemmas above). Its members, however, are the creator and the supplied
  identifiers with repeated spellings removed, and each is cast to an object id only when
  the group is stored. Two spellings of one object id both stay: when \<open>alice\<close> creates
  a group and supplies her own identifier in upper case beside \<open>bob\<close>, the stored
  member list holds \<open>alice\<close> twice, so it is not the deduplicated union of the creator
  and the supplied members.
\<close>

theorem createGroup_stores_a_member_twice:
  "isValid hex_ids alice_upper \<and> isValid hex_ids bob
   \<and> castObjectId hex_ids alice_upper = castObjectId hex_ids alice
   \<and> map members
         (groups (snd (createGroup hex_ids (\<lambda>img. None) (acting_as alice 5) empty_store
            twice_input)))
       = [[alice, alice, bob]]
   \<and> \<not> distinct [alice, alice, bob]"
  by (simp add: createGroup_def createGroup_try_def new_Set_def set_add_def trim_def
      is_space_def utf16_def fresh_id_def findGroupById_def empty_store_def Let_def
      example_defs)

lemma crew_created:
  "map members
     (groups (snd (createGroup hex_ids (\<lambda>img. None) (acting_as alice 5) empty_store crew_input)))
   = [[alice, bob]]"
  by (simp add: createGroup_def createGroup_try_def new_Set_def set_add_def trim_def
      is_space_def utf16_def fresh_id_def findGroupById_def empty_store_def Let_def
      example_defs)

lemma findGroupById_map_update:
  "findGroupById g gs = Some grp \<Longrightarrow> gid (f grp) = g
    \<Longrightarrow> findGroupById g (map (\<lambda>h. if gid h = g then f h else h) gs) = Some (f grp)"
  by (induction gs) (auto simp: findGroupById_def)

lemma sendGroupMessage_non_member:
  assumes "user ctx = Some u"
    and "\<not> (\<exists>grp. findGroupById g (groups s) = Some grp \<and> user_id u \<in> set (members grp))"
  shows "sendGroupMessage odm ctx s g c t md r
      = (Thrown ''Error sending group message: You are not a member of this group'', s)"
  using assms
  by (auto simp: sendGroupMessage_def sendGroupMessage_try_def split: option.splits)

lemma sendGroupMessage_media:
  assumes "user ctx = Some u" and "findGroupById g (groups s) = Some grp"
    and "user_id u \<in> set (members grp)"
  shows "sendGroupMessage odm ctx s g c t (Some d) r
      = (Thrown (''Error sending group message: '' @ validationMessage odm (InvalidMedia d)), s)"
  using assms by (simp add: sendGroupMessage_def sendGroupMessage_try_def)

lemma sendGroupMessage_member:
  assumes u: "user ctx = Some u" and grp: "findGroupById g (groups s) = Some grp"
    and mem: "user_id u \<in> set (members grp)"
  shows "\<exists>msg s' grp'. sendGroupMessage odm ctx s g c t None r = (Returned (Some msg), s')
       \<and> groupMessages s' = groupMessages s @ [msg]
       \<and> mid msg \<notin> mid ` set (groupMessages s)
       \<and> group_ref msg = g \<and> sender msg = user_id u \<and> content msg = map_option trim c
       \<and> messageType msg = (case t of None \<Rightarrow> Text | Some ty \<Rightarrow> ty)
       \<and> createdAt msg = clock ctx \<and> \<not> isDeleted msg \<and> readBy msg = []
       \<and> findGroupById g (groups s') = Some grp'
       \<and> lastMessage grp' = Some \<lparr>
            last_content =
              (if c = None \<or> c = Some []
               then utf16 (''Sent a '' @ type_name (case t of None \<Rightarrow> Text | Some ty \<Rightarrow> ty))
               else the c),
            last_sender = user_id u,
            last_timestamp = clock ctx\<rparr>
       \<and> members grp' = members grp \<and> admins grp' = admins grp"
proof -
  let ?ty = "case t of None \<Rightarrow> Text | Some ty \<Rightarrow> ty"
  let ?msg = "\<lparr>mid = fresh_id (map mid (groupMessages s)), group_ref = g, sender = user_id u,
      content = map_option trim c, messageType = ?ty, media = None, replyTo = r,
      isDeleted = False, readBy = [], createdAt = clock ctx\<rparr>"
  let ?f = "\<lambda>h. h\<lparr>lastMessage := Some \<lparr>
                 last_content = or_string c (utf16 (''Sent a '' @ type_name ?ty)),
                 last_sender = user_id u,
                 last_timestamp = clock ctx\<rparr>,
               updatedAt := clock ctx\<rparr>"
  let ?s' = "\<lparr>groups = map (\<lambda>h. if gid h = g then ?f h else h) (groups s),
             groupMessages = groupMessages s @ [?msg]\<rparr>"
  have fm: "findMessageById (fresh_id (map mid (groupMessages s))) (groupMessages s @ [?msg])
      = Some ?msg"
    by (rule findMessageById_append_fresh[OF fresh_mid]) simp
  from findGroupById_Some[OF grp] have "gid (?f grp) = g" by simp
  from findGroupById_map_update[OF grp, of ?f, OF this]
  have fg: "findGroupById g (groups ?s') = Some (?f grp)" by simp
  have run: "sendGroupMessage odm ctx s g c t None r = (Returned (Some ?msg), ?s')"
    using u grp mem fm
    by (simp add: sendGroupMessage_def sendGroupMessage_try_def Let_def)
  have fresh: "mid ?msg \<notin> mid ` set (groupMessages s)"
    using fresh_mid[of "groupMessages s"] by (auto simp: image_iff)
  have lc: "or_string c (utf16 (''Sent a '' @ type_name ?ty))
      = (if c = None \<or> c = Some [] then utf16 (''Sent a '' @ type_name ?ty) else the c)"
    by (cases c) (auto simp: or_string_def)
  show ?thesis
    using run fresh fg lc
    by (intro exI[of _ ?msg] exI[of _ ?s'] exI[of _ "?f grp"]) simp
qed

text \<open>
  Claim C7. A sender who is not a member of the group gets the thrown "You are not a
  member of this group" and no message record is created; a member who sends content
  alone gets the message created, with the content trimmed, and the last-message summary
  of the group overwritten (the lemmas above). But a member who attaches a media
  descriptor gets neither: the schema declares \<^verbatim>\<open>media\<close> with a \<^verbatim>\<open>type\<close> key, so the
  path is a string, the descriptor does not cast, \<^verbatim>\<open>GroupMessage.create\<close> throws and
  the resolver rethrows. \<open>u2\<close>, a member of "Team", sending a photo: no message
  record is created and the summary stays as it was.
\<close>

theorem sendGroupMessage_rejects_media:
  "findGroupById 1 (groups team_store) = Some team
   \<and> ''u2'' \<in> set (members team)
   \<and> sendGroupMessage odm (acting_as ''u2'' 60) team_store 1 (Some (utf16 ''look'')) (Some Image)
        (Some photo) None
       = (Thrown (''Error sending group message: '' @ validationMessage odm (InvalidMedia photo)),
          team_store)"
  by (simp add: sendGroupMessage_def sendGroupMessage_try_def findGroupById_def
      acting_as_def team_def team_store_def)

lemma sendGroupMessage_trims_content:
  "\<exists>msg s'. sendGroupMessage odm (acting_as ''u2'' 60) team_store 1 (Some (utf16 '' hi ''))
        None None None = (Returned (Some msg), s')
     \<and> content msg = Some (utf16 ''hi'')
     \<and> map lastMessage (groups s')
         = [Some \<lparr>last_content = utf16 '' hi '', last_sender = ''u2'', last_timestamp = 60\<rparr>]"
  by (simp add: sendGroupMessage_def sendGroupMessage_try_def findGroupById_def
      findMessageById_def fresh_id_def trim_def is_space_def or_string_def utf16_def Let_def
      example_defs)

section \<open>Read receipts\<close>

lemma createGroup_messages:
  "groupMessages (snd (createGroup odm uploadImage ctx s input)) = groupMessages s"
  by (auto simp: createGroup_def createGroup_try_def Let_def split: option.splits)

lemma addGroupMembers_messages: "groupMessages (snd (addGroupMembers ctx s g ms)) = groupMessages s"
  by (auto simp: addGroupMembers_def addGroupMembers_try_def Let_def split: option.splits)

lemma removeGroupMember_messages:
  "groupMessages (snd (removeGroupMember ctx s g m)) = groupMessages s"
  by (auto simp: removeGroupMember_def removeGroupMember_try_def Let_def split: option.splits)

lemma leaveGroup_messages: "groupMessages (snd (leaveGroup ctx s g)) = groupMessages s"
  by (auto simp: leaveGroup_def leaveGroup_try_def Let_def split: option.splits)

lemma updateGroup_messages: "groupMessages (snd (updateGroup ctx s g n d i)) = groupMessages s"
  by (auto simp: updateGroup_def updateGroup_try_def Let_def split: option.splits)

lemma makeGroupAdmin_messages: "groupMessages (snd (makeGroupAdmin ctx s g m)) = groupMessages s"
  by (auto simp: makeGroupAdmin_def makeGroupAdmin_try_def Let_def split: option.splits)

lemma sendGroupMessage_receipts:
  "receipts_distinct s \<Longrightarrow> receipts_distinct (snd (sendGroupMessage odm ctx s g c t md r))"
  by (auto simp: sendGroupMessage_def sendGroupMessage_try_def receipts_distinct_def Let_def
      split: option.splits)

lemma deleteGroup_receipts:
  "receipts_distinct s \<Longrightarrow> receipts_distinct (snd (deleteGroup ctx s g))"
  by (auto simp: deleteGroup_def deleteGroup_try_def receipts_distinct_def Let_def
      split: option.splits)

lemma receipts_distinct_saveMessage:
  assumes "receipts_distinct s" and "distinct (map read_user (readBy m'))"
  shows "receipts_distinct (s\<lparr>groupMessages := saveMessage m' (groupMessages s)\<rparr>)"
  using assms set_saveMessage[of m' "groupMessages s"] by (auto simp: receipts_distinct_def)

lemma markGroupMessageAsRead_receipts:
  assumes "receipts_distinct s"
  shows "receipts_distinct (snd (markGroupMessageAsRead ctx s i))"
proof (cases "markGroupMessageAsRead_try ctx s i")
  case (Inl msg)
  with assms show ?thesis by (simp add: markGroupMessageAsRead_def)
next
  case (Inr p)
  then obtain u m where u: "user ctx = Some u"
    and m: "findMessageById i (groupMessages s) = Some m"
    and p: "snd p = (if \<not> list_ex (\<lambda>e. read_user e = user_id u) (readBy m)
                     then s\<lparr>groupMessages := saveMessage
                             (m\<lparr>readBy := readBy m @ [\<lparr>read_user = user_id u, readAt = clock ctx\<rparr>]\<rparr>)
                             (groupMessages s)\<rparr>
                     else s)"
    by (auto simp: markGroupMessageAsRead_try_def Let_def split: option.splits)
  from assms findMessageById_Some[OF m] have dm: "distinct (map read_user (readBy m))"
    by (auto simp: receipts_distinct_def)
  have "receipts_distinct (snd p)"
  proof (cases "list_ex (\<lambda>e. read_user e = user_id u) (readBy m)")
    case True
    with p assms show ?thesis by simp
  next
    case False
    then have "distinct (map read_user
        (readBy (m\<lparr>readBy := readBy m @ [\<lparr>read_user = user_id u, readAt = clock ctx\<rparr>]\<rparr>)))"
      using dm by (auto simp: list_ex_iff)
    from receipts_distinct_saveMessage[OF assms this] p False show ?thesis by simp
  qed
  with Inr show ?thesis by (cases p) (simp add: markGroupMessageAsRead_def)
qed

lemma receipts_distinct_same_messages:
  "groupMessages s' = groupMessages s \<Longrightarrow> receipts_distinct s \<Longrightarrow> receipts_distinct s'"
  by (simp add: receipts_distinct_def)

lemma Mutation_receipts:
  assumes "receipts_distinct s"
  shows "receipts_distinct (Mutation odm uploadImage ctx s m)"
proof (cases m)
  case (CreateGroup input)
  then show ?thesis
    using receipts_distinct_same_messages[OF createGroup_messages assms] by simp
next
  case (SendGroupMessage g c t md r)
  then show ?thesis using sendGroupMessage_receipts[OF assms] by simp
next
  case (AddGroupMembers g ms)
  then show ?thesis
    using receipts_distinct_same_messages[OF addGroupMembers_messages assms] by simp
next
  case (RemoveGroupMember g x)
  then show ?thesis
    using receipts_distinct_same_messages[OF removeGroupMember_messages assms] by simp
next
  case (LeaveGroup g)
  then show ?thesis
    using receipts_distinct_same_messages[OF leaveGroup_messages assms] by simp
next
  case (UpdateGroup g n d i)
  then show ?thesis
    using receipts_distinct_same_messages[OF updateGroup_messages assms] by simp
next
  case (DeleteGroup g)
  then show ?thesis using deleteGroup_receipts[OF assms] by simp
next
  case (MakeGroupAdmin g x)
  then show ?thesis
    using receipts_distinct_same_messages[OF makeGroupAdmin_messages assms] by simp
next
  case (MarkGroupMessageAsRead i)
  then show ?thesis using markGroupMessageAsRead_receipts[OF assms] by simp
qed

lemma reachable_receipts_distinct:
  "reachable odm uploadImage s \<Longrightarrow> receipts_distinct s"
proof (induction rule: reachable.induct)
  case initial
  show ?case by (simp add: receipts_distinct_def empty_store_def)
next
  case (request s ctx m)
  then show ?case by (simp add: Mutation_receipts)
qed

lemma count_one_of_distinct:
  "distinct (map f xs) \<Longrightarrow> x \<in> set xs \<Longrightarrow> length (filter (\<lambda>e. f e = f x) xs) = 1"
proof (induction xs)
  case Nil
  then show ?case by simp
next
  case (Cons y ys)
  show ?case
  proof (cases "x = y")
    case True
    from Cons.prems have "f y \<notin> f ` set ys" by simp
    then have "\<forall>e \<in> set ys. f e \<noteq> f y" by (metis imageI)
    then have "filter (\<lambda>e. f e = f y) ys = []" by (simp add: filter_empty_conv)
    with True show ?thesis by simp
  next
    case False
    with Cons.prems have x: "x \<in> set ys" and d: "distinct (map f ys)" by auto
    from Cons.prems have "f y \<notin> f ` set ys" by simp
    with x have "f y \<noteq> f x" by (metis imageI)
    with Cons.IH[OF d x] show ?thesis by simp
  qed
qed

lemma markGroupMessageAsRead_twice:
  assumes u: "user ctx = Some u" and u': "user ctx' = Some u"
    and inv: "receipts_distinct s"
    and m: "findMessageById i (groupMessages s) = Some m"
  shows "\<exists>m' s'. markGroupMessageAsRead ctx s i = (Returned (Some m'), s')
           \<and> markGroupMessageAsRead ctx' s' i = (Returned (Some m'), s')
           \<and> findMessageById i (groupMessages s') = Some m'
           \<and> length (filter (\<lambda>e. read_user e = user_id u) (readBy m')) = 1
           \<and> receipts_distinct s'"
proof -
  from inv findMessageById_Some[OF m] have dm: "distinct (map read_user (readBy m))"
    by (auto simp: receipts_distinct_def)
  show ?thesis
  proof (cases "list_ex (\<lambda>e. read_user e = user_id u) (readBy m)")
    case True
    then obtain e where e: "e \<in> set (readBy m)" "read_user e = user_id u"
      by (auto simp: list_ex_iff)
    from count_one_of_distinct[OF dm e(1)] e(2)
    have one: "length (filter (\<lambda>e. read_user e = user_id u) (readBy m)) = 1" by simp
    have "markGroupMessageAsRead ctx s i = (Returned (Some m), s)"
      using u m True by (simp add: markGroupMessageAsRead_def markGroupMessageAsRead_try_def)
    moreover have "markGroupMessageAsRead ctx' s i = (Returned (Some m), s)"
      using u' m True by (simp add: markGroupMessageAsRead_def markGroupMessageAsRead_try_def)
    ultimately show ?thesis using m one inv by (intro exI[of _ m] exI[of _ s]) simp
  next
    case False
    let ?m' = "m\<lparr>readBy := readBy m @ [\<lparr>read_user = user_id u, readAt = clock ctx\<rparr>]\<rparr>"
    let ?s' = "s\<lparr>groupMessages := saveMessage ?m' (groupMessages s)\<rparr>"
    from findMessageById_Some[OF m] have "mid ?m' = i" by simp
    from findMessageById_saveMessage[OF m this]
    have f: "findMessageById i (groupMessages ?s') = Some ?m'" by simp
    have r1: "markGroupMessageAsRead ctx s i = (Returned (Some ?m'), ?s')"
      using u m False f
      by (simp add: markGroupMessageAsRead_def markGroupMessageAsRead_try_def Let_def)
    have already: "list_ex (\<lambda>e. read_user e = user_id u) (readBy ?m')" by simp
    have r2: "markGroupMessageAsRead ctx' ?s' i = (Returned (Some ?m'), ?s')"
      using u' f already
      by (simp add: markGroupMessageAsRead_def markGroupMessageAsRead_try_def Let_def)
    from False have "filter (\<lambda>e. read_user e = user_id u) (readBy m) = []"
      by (auto simp: list_ex_iff filter_empty_conv)
    then have one: "length (filter (\<lambda>e. read_user e = user_id u) (readBy ?m')) = 1" by simp
    from False dm have "distinct (map read_user (readBy ?m'))" by (auto simp: list_ex_iff)
    from receipts_distinct_saveMessage[OF inv this] have inv': "receipts_distinct ?s'" .
    from r1 r2 f one inv' show ?thesis by (intro exI[of _ ?m'] exI[of _ ?s']) simp
  qed
qed

lemma markGroupMessageAsRead_not_found:
  "user ctx = Some u \<Longrightarrow> findMessageById i (groupMessages s) = None
    \<Longrightarrow> markGroupMessageAsRead ctx s i
         = (Thrown ''Error marking message as read: Message not found'', s)"
  by (simp add: markGroupMessageAsRead_def markGroupMessageAsRead_try_def)


lemma chat_store_messages: "groupMessages chat_store = [first_message]"
  by (simp add: chat_store_def createGroup_def createGroup_try_def sendGroupMessage_def
      sendGroupMessage_try_def findGroupById_def findMessageById_def fresh_id_def new_Set_def
      set_add_def trim_def is_space_def or_string_def empty_store_def utf16_def Let_def
      example_defs)

text \<open>
  Claim C8. In every store that requests to the \<^verbatim>\<open>Mutation\<close> map produce from the empty
  one, each user appears at most once in the read receipts of each message. On such a
  store, \<^verbatim>\<open>markGroupMessageAsRead\<close> called twice by the same reader on the same message
  returns the same message both times, the second call changes nothing, and the message
  then has exactly one read receipt of that reader. When the message is absent the
  operation throws "Message not found".
\<close>

theorem markGroupMessageAsRead_idempotent:
  "(reachable odm uploadImage s \<longrightarrow> receipts_distinct s)
   \<and> (\<forall>u m. user ctx = Some u \<and> user ctx' = Some u \<and> receipts_distinct s
          \<and> findMessageById i (groupMessages s) = Some m \<longrightarrow>
        (\<exists>m' s'. markGroupMessageAsRead ctx s i = (Returned (Some m'), s')
           \<and> markGroupMessageAsRead ctx' s' i = (Returned (Some m'), s')
           \<and> findMessageById i (groupMessages s') = Some m'
           \<and> length (filter (\<lambda>e. read_user e = user_id u) (readBy m')) = 1
           \<and> receipts_distinct s'))
   \<and> (\<forall>u. user ctx = Some u \<and> findMessageById i (groupMessages s) = None \<longrightarrow>
        markGroupMessageAsRead ctx s i
          = (Thrown ''Error marking message as read: Message not found'', s))"
proof (intro conjI impI allI)
  assume "reachable odm uploadImage s"
  then show "receipts_distinct s" by (rule reachable_receipts_distinct)
next
  fix u m
  assume "user ctx = Some u \<and> user ctx' = Some u \<and> receipts_distinct s
          \<and> findMessageById i (groupMessages s) = Some m"
  then have "user ctx = Some u" "user ctx' = Some u" "receipts_distinct s"
    "findMessageById i (groupMessages s) = Some m" by simp_all
  then show "\<exists>m' s'. markGroupMessageAsRead ctx s i = (Returned (Some m'), s')
           \<and> markGroupMessageAsRead ctx' s' i = (Returned (Some m'), s')
           \<and> findMessageById i (groupMessages s') = Some m'
           \<and> length (filter (\<lambda>e. read_user e = user_id u) (readBy m')) = 1
           \<and> receipts_distinct s'"
    by (rule markGroupMessageAsRead_twice)
next
  fix u
  assume "user ctx = Some u \<and> findMessageById i (groupMessages s) = None"
  then show "markGroupMessageAsRead ctx s i
          = (Thrown ''Error marking message as read: Message not found'', s)"
    by (simp add: markGroupMessageAsRead_not_found)
qed

theorem markGroupMessageAsRead_idempotent_witness:
  "reachable spelled_ids (\<lambda>img. None) chat_store
   \<and> receipts_distinct chat_store
   \<and> findMessageById 1 (groupMessages chat_store) = Some first_message
   \<and> (\<exists>s'. markGroupMessageAsRead (acting_as ''u2'' 70) chat_store 1
              = (Returned (Some (first_message\<lparr>readBy := [\<lparr>read_user = ''u2'', readAt = 70\<rparr>]\<rparr>)), s')
          \<and> markGroupMessageAsRead (acting_as ''u2'' 80) s' 1
              = (Returned (Some (first_message\<lparr>readBy := [\<lparr>read_user = ''u2'', readAt = 70\<rparr>]\<rparr>)), s'))
   \<and> findMessageById 2 (groupMessages chat_store) = None
   \<and> markGroupMessageAsRead (acting_as ''u2'' 70) chat_store 2
        = (Thrown ''Error marking message as read: Message not found'', chat_store)"
proof -
  note idem = markGroupMessageAsRead_idempotent
    [where odm = spelled_ids and uploadImage = "\<lambda>img. None" and s = chat_store
       and ctx = "acting_as ''u2'' 70" and ctx' = "acting_as ''u2'' 80"]
  have r: "reachable spelled_ids (\<lambda>img. None) chat_store"
    unfolding chat_store_def by (intro reachable.request reachable.initial)
  with idem [of 1] have inv: "receipts_distinct chat_store" by blast
  have u: "user (acting_as ''u2'' 70) = Some \<lparr>user_id = ''u2''\<rparr>"
    "user (acting_as ''u2'' 80) = Some \<lparr>user_id = ''u2''\<rparr>"
    by (simp_all add: acting_as_def)
  have f: "findMessageById 1 (groupMessages chat_store) = Some first_message"
    by (simp add: chat_store_messages findMessageById_def example_defs)
  have n: "findMessageById 2 (groupMessages chat_store) = None"
    by (simp add: chat_store_messages findMessageById_def example_defs)
  from idem [of 2] u n
  have nf: "markGroupMessageAsRead (acting_as ''u2'' 70) chat_store 2
        = (Thrown ''Error marking message as read: Message not found'', chat_store)"
    by blast
  let ?m' = "first_message\<lparr>readBy := [\<lparr>read_user = ''u2'', readAt = 70\<rparr>]\<rparr>"
  let ?s' = "chat_store\<lparr>groupMessages := [?m']\<rparr>"
  have c1: "markGroupMessageAsRead (acting_as ''u2'' 70) chat_store 1 = (Returned (Some ?m'), ?s')"
    by (simp add: markGroupMessageAsRead_def markGroupMessageAsRead_try_def chat_store_messages
        findMessageById_def saveMessage_def Let_def example_defs)
  have c2: "markGroupMessageAsRead (acting_as ''u2'' 80) ?s' 1 = (Returned (Some ?m'), ?s')"
    by (simp add: markGroupMessageAsRead_def markGroupMessageAsRead_try_def
        findMessageById_def saveMessage_def Let_def example_defs)
  from c1 c2 have tw: "\<exists>s'. markGroupMessageAsRead (acting_as ''u2'' 70) chat_store 1
              = (Returned (Some ?m'), s')
          \<and> markGroupMessageAsRead (acting_as ''u2'' 80) s' 1 = (Returned (Some ?m'), s')"
    by (intro exI[of _ ?s']) simp
  from r inv f tw n nf show ?thesis by (intro conjI)
qed

end
